theory Spec2Isabelle
  imports Complex_Main
begin

section \<open>Values, errors and the configuration\<close>

text \<open>
  The embedding follows \<^verbatim>\<open>train.py\<close>. Python's unbounded integers are \<^typ>\<open>int\<close>.
  The learning rate and its decay are Python \<^verbatim>\<open>float\<close> values and the schedule computes
  with them in binary64 arithmetic; they are values of the type \<open>double\<close> below, with
  rounding to nearest, overflow to infinity and \<^verbatim>\<open>nan\<close>. The losses are tensors that the
  network returns and the loss weights are only ever multiplied with them; tensor values
  are idealised as \<^typ>\<open>real\<close> numbers. Every exception the script can raise is a
  value of \<open>error\<close>; a computation that may raise returns \<open>error + 'a\<close>.
\<close>

datatype error =
    ZeroDivisionError
  | OverflowError
  | IndexError
  | Raised string

subsection \<open>Python floats\<close>

text \<open>
  A binary64 value is a finite real, an infinity or \<^verbatim>\<open>nan\<close>. The two zeros are not
  told apart: they compare equal, and the one operation of the script that could
  separate them, a division by zero, raises in Python for either.
\<close>

datatype double = Finite real | PosInf | NegInf | NaN

text \<open>Rounding of a real to the nearest integer, a tie to the even one.\<close>

definition round_even :: "real \<Rightarrow> int" where
  "round_even r =
     (let f = \<lfloor>r\<rfloor>; d = r - of_int f in
      if d < 1 / 2 then f else if 1 / 2 < d then f + 1 else if even f then f else f + 1)"

text \<open>
  The binary exponent of a real, not below that of the smallest normal number; the
  values of a binade with exponent \<open>e\<close> are the multiples of \<open>2 powr (e - 52)\<close>
  (53 significant bits), and below the normal range the spacing stays \<open>2 powr (- 1074)\<close>.
\<close>

definition exponent :: "real \<Rightarrow> int" where
  "exponent x = max \<lfloor>log 2 \<bar>x\<bar>\<rfloor> (- 1022)"

definition round_nearest :: "real \<Rightarrow> real" where
  "round_nearest x =
     (if x = 0 then 0
      else let ulp = 2 powr of_int (exponent x - 52)
           in of_int (round_even (x / ulp)) * ulp)"

text \<open>The result of an arithmetic operation: the exact value rounded, infinite on overflow.\<close>

definition round64 :: "real \<Rightarrow> double" where
  "round64 x =
     (let y = round_nearest x in
      if 2 ^ 1024 \<le> y then PosInf else if y \<le> - (2 ^ 1024) then NegInf else Finite y)"

fun float_mul :: "double \<Rightarrow> double \<Rightarrow> double" where
  "float_mul (Finite x) (Finite y) = round64 (x * y)"
| "float_mul NaN y = NaN"
| "float_mul x NaN = NaN"
| "float_mul (Finite x) PosInf = (if x = 0 then NaN else if 0 < x then PosInf else NegInf)"
| "float_mul (Finite x) NegInf = (if x = 0 then NaN else if 0 < x then NegInf else PosInf)"
| "float_mul PosInf (Finite y) = (if y = 0 then NaN else if 0 < y then PosInf else NegInf)"
| "float_mul NegInf (Finite y) = (if y = 0 then NaN else if 0 < y then NegInf else PosInf)"
| "float_mul PosInf PosInf = PosInf"
| "float_mul PosInf NegInf = NegInf"
| "float_mul NegInf PosInf = NegInf"
| "float_mul NegInf NegInf = PosInf"

fun float_add :: "double \<Rightarrow> double \<Rightarrow> double" where
  "float_add (Finite x) (Finite y) = round64 (x + y)"
| "float_add NaN y = NaN"
| "float_add x NaN = NaN"
| "float_add PosInf NegInf = NaN"
| "float_add NegInf PosInf = NaN"
| "float_add PosInf y = PosInf"
| "float_add x PosInf = PosInf"
| "float_add NegInf y = NegInf"
| "float_add x NegInf = NegInf"

text \<open>Division by a divisor that is not zero.\<close>

fun float_div :: "double \<Rightarrow> double \<Rightarrow> double" where
  "float_div (Finite x) (Finite y) = round64 (x / y)"
| "float_div NaN y = NaN"
| "float_div x NaN = NaN"
| "float_div (Finite x) PosInf = Finite 0"
| "float_div (Finite x) NegInf = Finite 0"
| "float_div PosInf (Finite y) = (if 0 < y then PosInf else NegInf)"
| "float_div NegInf (Finite y) = (if 0 < y then NegInf else PosInf)"
| "float_div PosInf PosInf = NaN"
| "float_div PosInf NegInf = NaN"
| "float_div NegInf PosInf = NaN"
| "float_div NegInf NegInf = NaN"

text \<open>
  Python's \<^verbatim>\<open>/\<close> on floats raises \<^verbatim>\<open>ZeroDivisionError\<close> when the divisor is zero,
  whatever the dividend. An integer operand of a float operation is converted first;
  the conversion rounds, and raises \<^verbatim>\<open>OverflowError\<close> when the integer is too large.
  \<open>float_le\<close> is \<^verbatim>\<open><=\<close>.
\<close>

definition float_truediv :: "double \<Rightarrow> double \<Rightarrow> error + double" where
  "float_truediv x y = (if y = Finite 0 then Inl ZeroDivisionError else Inr (float_div x y))"

definition float_of_int :: "int \<Rightarrow> error + double" where
  "float_of_int n =
     (case round64 (of_int n) of Finite y \<Rightarrow> Inr (Finite y) | _ \<Rightarrow> Inl OverflowError)"

fun float_le :: "double \<Rightarrow> double \<Rightarrow> bool" where
  "float_le (Finite x) (Finite y) = (x \<le> y)"
| "float_le NaN y = False"
| "float_le x NaN = False"
| "float_le NegInf y = True"
| "float_le x PosInf = True"
| "float_le PosInf y = False"
| "float_le x NegInf = False"

subsection \<open>The configuration\<close>

record args =
  train_content_dir :: string
  val_content_dir :: string
  style_dir :: string
  vgg :: string
  save_dir :: string
  log_dir :: string
  lr :: double
  lr_decay :: double
  max_iter :: int
  batch_size :: int
  style_weight :: real
  content_weight :: real
  n_threads :: int
  save_model_interval :: int
  loss_print_interval :: int

subsection \<open>The argument parser (lines 82--118)\<close>

datatype arg_type = TStr | TFloat | TInt

datatype arg_default = NoDefault | DStr string | DFloat real | DInt int

record argument =
  flag :: string
  arg_ty :: arg_type
  required :: bool
  dflt :: arg_default

definition add_argument :: "string \<Rightarrow> arg_type \<Rightarrow> bool \<Rightarrow> arg_default \<Rightarrow> argument" where
  "add_argument f t r d = \<lparr>flag = f, arg_ty = t, required = r, dflt = d\<rparr>"

text \<open>
  The options in the order of the \<^verbatim>\<open>parser.add_argument\<close> calls. An option declared
  without \<^verbatim>\<open>type=\<close> is a string. A float default is recorded as the decimal
  literal of the source.
\<close>

definition parser :: "argument list" where
  "parser =
    [ add_argument ''--train_content_dir'' TStr True NoDefault,
      add_argument ''--val_content_dir'' TStr True NoDefault,
      add_argument ''--style_dir'' TStr True NoDefault,
      add_argument ''--vgg'' TStr False (DStr ''models/vgg_normalised.pth''),
      add_argument ''--save_dir'' TStr False (DStr ''./experiments''),
      add_argument ''--log_dir'' TStr False (DStr ''./logs''),
      add_argument ''--lr'' TFloat False (DFloat (1 / 10000)),
      add_argument ''--lr_decay'' TFloat False (DFloat (1 / 100000)),
      add_argument ''--max_iter'' TInt False (DInt 160000),
      add_argument ''--batch_size'' TInt False (DInt 8),
      add_argument ''--style_weight'' TFloat False (DFloat 1),
      add_argument ''--content_weight'' TFloat False (DFloat 1),
      add_argument ''--n_threads'' TInt False (DInt 16),
      add_argument ''--save_model_interval'' TInt False (DInt 10000),
      add_argument ''--loss_print_interval'' TInt False (DInt 100) ]"

subsection \<open>Decimal rendering of integers\<close>

text \<open>
  \<^verbatim>\<open>str(seed)\<close> and the format field \<^verbatim>\<open>{:d}\<close> print an integer in decimal, with a
  leading minus sign when it is negative.
\<close>

definition digit_char :: "nat \<Rightarrow> char" where
  "digit_char d = ''0123456789'' ! d"

fun str_nat :: "nat \<Rightarrow> string" where
  "str_nat n = (if n < 10 then [digit_char n] else str_nat (n div 10) @ [digit_char (n mod 10)])"

declare str_nat.simps [simp del]

definition str_int :: "int \<Rightarrow> string" where
  "str_int i = (if i < 0 then CHR ''-'' # str_nat (nat (- i)) else str_nat (nat i))"

section \<open>Learning-rate schedule (lines 75--79)\<close>

text \<open>
  The optimizer holds a list of parameter groups, each a dictionary with a key
  \<^verbatim>\<open>"lr"\<close>, and its moment estimates. \<^verbatim>\<open>adjust_learning_rate\<close> computes
  \<^verbatim>\<open>args.lr / (1.0 + args.lr_decay * iteration_count)\<close> in float arithmetic, the
  integer count converted for the product, and stores the result in every group.
\<close>

record param_group =
  pg_lr :: double

record 'o optimizer =
  param_groups :: "param_group list"
  moments :: 'o

definition adjust_learning_rate ::
  "args \<Rightarrow> 'o optimizer \<Rightarrow> int \<Rightarrow> error + 'o optimizer" where
  "adjust_learning_rate a optimizer iteration_count =
     (case float_of_int iteration_count of Inl e \<Rightarrow> Inl e
      | Inr count \<Rightarrow>
      case float_truediv (lr a) (float_add (Finite 1) (float_mul (lr_decay a) count)) of
        Inl e \<Rightarrow> Inl e
      | Inr lr' \<Rightarrow>
          Inr (optimizer\<lparr>param_groups :=
                 map (\<lambda>param_group. param_group\<lparr>pg_lr := lr'\<rparr>) (param_groups optimizer)\<rparr>))"

text \<open>
  The schedule in the words of the specification, \<open>base / (1 + decay * iteration)\<close> as
  Python evaluates it on floats, for comparison with the code.
\<close>

definition rate :: "double \<Rightarrow> double \<Rightarrow> int \<Rightarrow> error + double" where
  "rate base decay iteration =
     (case float_of_int iteration of Inl e \<Rightarrow> Inl e
      | Inr n \<Rightarrow> float_truediv base (float_add (Finite 1) (float_mul decay n)))"

section \<open>Deterministic seeding (lines 25--35)\<close>

text \<open>
  The process-wide state that \<^verbatim>\<open>seed_everything\<close> writes: the generators of the
  \<^verbatim>\<open>random\<close> module, of NumPy and of PyTorch (one for the CPU, one per accelerator
  device), the environment variables, the print options and the two cuDNN switches.
  The state of a generator is a value of the type parameter \<open>'g\<close>.
\<close>

record 'g generators =
  py_random :: 'g
  np_random :: 'g
  torch_cpu :: 'g
  torch_cuda :: "'g list"

record 'g process =
  gens :: "'g generators"
  environ :: "string \<rightharpoonup> string"
  print_precision :: nat
  cudnn_benchmark :: bool
  cudnn_deterministic :: bool

text \<open>
  The seeding functions of the three libraries are parameters: each maps a seed to the
  state of a freshly seeded generator, or raises (NumPy, for one, rejects a seed outside
  \<open>[0, 2\<^sup>3\<^sup>2)\<close>).
\<close>

record 'g rng_lib =
  random_seed :: "int \<Rightarrow> error + 'g"
  np_random_seed :: "int \<Rightarrow> error + 'g"
  torch_manual_seed :: "int \<Rightarrow> error + 'g"
  torch_cuda_manual_seed :: "int \<Rightarrow> error + 'g"

text \<open>
  \<^verbatim>\<open>def seed_everything(seed=42)\<close>: the argument is optional, \<open>None\<close> stands for a
  call that omits it. \<^verbatim>\<open>torch.cuda.manual_seed\<close> seeds the current device (device 0,
  when there is one), \<^verbatim>\<open>torch.cuda.manual_seed_all\<close> every device.
\<close>

definition seed_everything :: "'g rng_lib \<Rightarrow> int option \<Rightarrow> 'g process \<Rightarrow> error + 'g process" where
  "seed_everything L seed_arg p =
     (let seed = (case seed_arg of None \<Rightarrow> 42 | Some s \<Rightarrow> s) in
      case random_seed L seed of Inl e \<Rightarrow> Inl e | Inr g1 \<Rightarrow>
      let p1 = p\<lparr>gens := (gens p)\<lparr>py_random := g1\<rparr>\<rparr>;
          p2 = p1\<lparr>environ := (environ p1)(''PYTHONHASHSEED'' \<mapsto> str_int seed)\<rparr> in
      case np_random_seed L seed of Inl e \<Rightarrow> Inl e | Inr g2 \<Rightarrow>
      let p3 = p2\<lparr>gens := (gens p2)\<lparr>np_random := g2\<rparr>\<rparr> in
      case torch_manual_seed L seed of Inl e \<Rightarrow> Inl e | Inr g3 \<Rightarrow>
      let p4 = p3\<lparr>gens := (gens p3)\<lparr>torch_cpu := g3\<rparr>\<rparr> in
      case torch_cuda_manual_seed L seed of Inl e \<Rightarrow> Inl e | Inr g4 \<Rightarrow>
      let p5 = p4\<lparr>gens := (gens p4)\<lparr>torch_cuda := (torch_cuda (gens p4))[0 := g4]\<rparr>\<rparr> in
      case torch_cuda_manual_seed L seed of Inl e \<Rightarrow> Inl e | Inr g5 \<Rightarrow>
      let p6 = p5\<lparr>gens := (gens p5)\<lparr>torch_cuda := map (\<lambda>_. g5) (torch_cuda (gens p5))\<rparr>\<rparr>;
          p7 = p6\<lparr>print_precision := 10\<rparr>;
          p8 = p7\<lparr>cudnn_benchmark := False\<rparr>
      in Inr (p8\<lparr>cudnn_deterministic := True\<rparr>))"

text \<open>Line 120: the script calls \<^verbatim>\<open>seed_everything()\<close> and passes nothing of \<^verbatim>\<open>args\<close>.\<close>

definition main_seeding :: "'g rng_lib \<Rightarrow> args \<Rightarrow> 'g process \<Rightarrow> error + 'g process" where
  "main_seeding L a p = seed_everything L None p"

section \<open>Transforms (lines 37--52)\<close>

text \<open>
  A transform is a list of torchvision operations, applied left to right by
  \<^verbatim>\<open>transforms.Compose\<close>. The operations themselves and the image decoder belong to the
  imaging libraries and are parameters; \<open>'v\<close> is the type of images and tensors.
\<close>

datatype transform = Resize nat nat | ToTensor

text \<open>
  What the operating system answers when a path is examined: nothing is there, a file
  with its contents, a directory with the names of its entries in the order of the
  listing, a directory whose listing is denied, or an error other than ``not found''
  (a name that is too long, a parent directory that may not be searched, an I/O error).
\<close>

datatype 'c node =
    Missing
  | File 'c
  | Dir "string list"
  | Unlistable
  | Failing error

type_synonym 'c filesystem = "string \<Rightarrow> 'c node"

record ('c, 'v) image_lib =
  resize :: "nat \<Rightarrow> nat \<Rightarrow> 'v \<Rightarrow> error + 'v"
  to_tensor :: "'v \<Rightarrow> error + 'v"
  image_open_rgb :: "'c filesystem \<Rightarrow> string \<Rightarrow> error + 'v"

fun apply_transform :: "('c, 'v) image_lib \<Rightarrow> transform \<Rightarrow> 'v \<Rightarrow> error + 'v" where
  "apply_transform L (Resize h w) img = resize L h w img"
| "apply_transform L ToTensor img = to_tensor L img"

fun compose :: "('c, 'v) image_lib \<Rightarrow> transform list \<Rightarrow> 'v \<Rightarrow> error + 'v" where
  "compose L [] img = Inr img"
| "compose L (t # ts) img =
     (case apply_transform L t img of Inl e \<Rightarrow> Inl e | Inr img' \<Rightarrow> compose L ts img')"

definition train_transform :: "transform list" where
  "train_transform = (let transform_list = [Resize 512 512, ToTensor] in transform_list)"

definition val_transform :: "transform list" where
  "val_transform = (let transform_list = [Resize 512 512, ToTensor] in transform_list)"

text \<open>Lines 136--138: the transforms of the three streams.\<close>

definition train_content_tf :: "transform list" where
  "train_content_tf = train_transform"

definition val_content_tf :: "transform list" where
  "val_content_tf = val_transform"

definition style_tf :: "transform list" where
  "style_tf = train_transform"

section \<open>Flat image dataset (lines 55--72)\<close>

text \<open>
  \<^verbatim>\<open>Path(root).glob("*")\<close> first asks whether \<open>root\<close> is a directory. That test
  answers no for a path that does not exist and for a file, and the glob yields nothing;
  any other error of the operating system is raised. For a directory the glob yields one
  path per entry of the listing, hidden entries and subdirectories included; a listing
  that is denied yields nothing.
\<close>

definition child :: "string \<Rightarrow> string \<Rightarrow> string" where
  "child parent name = parent @ ''/'' @ name"


record dataset =
  root :: string
  paths :: "string list"
  transform :: "transform list"


text \<open>
  \<^verbatim>\<open>self.paths[index]\<close> is Python list indexing: an index in \<open>[-n, 0)\<close> counts from the
  end, an index outside \<open>[-n, n)\<close> raises \<^verbatim>\<open>IndexError\<close>.
\<close>

definition list_index :: "'a list \<Rightarrow> int \<Rightarrow> error + 'a" where
  "list_index xs index =
     (let n = int (length xs) in
      if index < - n \<or> n \<le> index then Inl IndexError
      else Inr (xs ! nat (if index < 0 then index + n else index)))"

definition getitem :: "('c, 'v) image_lib \<Rightarrow> 'c filesystem \<Rightarrow> dataset \<Rightarrow> int \<Rightarrow> error + 'v" where
  "getitem L fs self index =
     (case list_index (paths self) index of Inl e \<Rightarrow> Inl e | Inr path \<Rightarrow>
      case image_open_rgb L fs path of Inl e \<Rightarrow> Inl e | Inr img \<Rightarrow>
      compose L (transform self) img)"

definition len :: "dataset \<Rightarrow> int" where
  "len self = int (length (paths self))"

section \<open>Infinite stream sampler\<close>

text \<open>
  Modelled from the spec: the module \<^verbatim>\<open>sampler.py\<close> with
  \<^verbatim>\<open>InfiniteSamplerWrapper\<close> is not among the sources. A sampler over a dataset of
  size \<open>N\<close> fails with \<^verbatim>\<open>EmptyDatasetError\<close> unless \<open>N \<ge> 1\<close>; it holds the indices
  of the current permutation that it has not emitted yet.
\<close>

record sampler =
  num_samples :: nat
  pending :: "nat list"

definition InfiniteSamplerWrapper :: "int \<Rightarrow> error + sampler" where
  "InfiniteSamplerWrapper n =
     (if n < 1 then Inl (Raised ''EmptyDatasetError'')
      else Inr \<lparr>num_samples = nat n, pending = []\<rparr>)"

text \<open>
  Modelled from the spec: the sampler emits the elements of the current permutation in
  order and draws a fresh permutation of \<open>[0, N)\<close> when none is left. The draw reads and
  advances the seeded generators; which generator it uses is left to the parameter
  \<open>permutation\<close>.
\<close>

definition next_index ::
  "('g generators \<Rightarrow> nat \<Rightarrow> nat list \<times> 'g generators) \<Rightarrow> sampler \<Rightarrow> 'g generators
     \<Rightarrow> error + (nat \<times> sampler \<times> 'g generators)" where
  "next_index permutation s g =
     (case pending s of
        x # xs \<Rightarrow> Inr (x, s\<lparr>pending := xs\<rparr>, g)
      | [] \<Rightarrow>
          (case permutation g (num_samples s) of
             (x # xs, g') \<Rightarrow> Inr (x, s\<lparr>pending := xs\<rparr>, g')
           | ([], g') \<Rightarrow> Inl (Raised ''StopIteration'')))"

datatype stream = StyleStream | TrainContentStream | ValContentStream

record 'g sampling =
  style_sampler :: sampler
  train_content_sampler :: sampler
  val_content_sampler :: sampler
  rng :: "'g generators"

text \<open>
  Modelled from the spec: one pull of an index from the sampler of a stream. The three
  samplers share the process's generators.
\<close>

definition pull_index ::
  "('g generators \<Rightarrow> nat \<Rightarrow> nat list \<times> 'g generators) \<Rightarrow> stream \<Rightarrow> 'g sampling
     \<Rightarrow> error + (nat \<times> 'g sampling)" where
  "pull_index permutation k st =
     (case k of
        StyleStream \<Rightarrow>
          (case next_index permutation (style_sampler st) (rng st) of Inl e \<Rightarrow> Inl e
           | Inr (x, s, g) \<Rightarrow> Inr (x, st\<lparr>style_sampler := s, rng := g\<rparr>))
      | TrainContentStream \<Rightarrow>
          (case next_index permutation (train_content_sampler st) (rng st) of Inl e \<Rightarrow> Inl e
           | Inr (x, s, g) \<Rightarrow> Inr (x, st\<lparr>train_content_sampler := s, rng := g\<rparr>))
      | ValContentStream \<Rightarrow>
          (case next_index permutation (val_content_sampler st) (rng st) of Inl e \<Rightarrow> Inl e
           | Inr (x, s, g) \<Rightarrow> Inr (x, st\<lparr>val_content_sampler := s, rng := g\<rparr>)))"

text \<open>
  Modelled from the spec: the indices sampled along a schedule, the list of the streams
  in the order in which the loaders pull from their samplers.
\<close>

fun sampled_indices ::
  "('g generators \<Rightarrow> nat \<Rightarrow> nat list \<times> 'g generators) \<Rightarrow> stream list \<Rightarrow> 'g sampling
     \<Rightarrow> error + (stream \<times> nat) list" where
  "sampled_indices permutation [] st = Inr []"
| "sampled_indices permutation (k # ks) st =
     (case pull_index permutation k st of Inl e \<Rightarrow> Inl e
      | Inr (x, st') \<Rightarrow>
          (case sampled_indices permutation ks st' of Inl e \<Rightarrow> Inl e
           | Inr rest \<Rightarrow> Inr ((k, x) # rest)))"

text \<open>
  Modelled from the spec: a run as far as the sampled indices go. The process is seeded
  (line 120), the three samplers are built over the sizes of the three datasets (lines
  144--168), and the indices are drawn along the schedule.
\<close>

definition pipeline_indices ::
  "'g rng_lib \<Rightarrow> ('g generators \<Rightarrow> nat \<Rightarrow> nat list \<times> 'g generators) \<Rightarrow> int option
     \<Rightarrow> int \<Rightarrow> int \<Rightarrow> int \<Rightarrow> stream list \<Rightarrow> 'g process \<Rightarrow> error + (stream \<times> nat) list" where
  "pipeline_indices L permutation seed_arg n_train n_val n_style schedule p =
     (case seed_everything L seed_arg p of Inl e \<Rightarrow> Inl e | Inr q \<Rightarrow>
      case InfiniteSamplerWrapper n_train of Inl e \<Rightarrow> Inl e | Inr s_train \<Rightarrow>
      case InfiniteSamplerWrapper n_val of Inl e \<Rightarrow> Inl e | Inr s_val \<Rightarrow>
      case InfiniteSamplerWrapper n_style of Inl e \<Rightarrow> Inl e | Inr s_style \<Rightarrow>
      sampled_indices permutation schedule
        \<lparr>style_sampler = s_style, train_content_sampler = s_train,
         val_content_sampler = s_val, rng = gens q\<rparr>)"

section \<open>Training and validation loop (lines 170--216)\<close>

text \<open>
  The collaborators of the loop are parameters: the three batch iterators (the \<open>k\<close>-th
  pull of an iterator returns a batch of type \<open>'b\<close> or raises), the network's forward
  pass (from the mode, the decoder parameters of type \<open>'p\<close>, a content batch and a style
  batch to the two losses), automatic differentiation of the weighted total with
  respect to the decoder parameters (a gradient of type \<open>'g\<close>), and the update rule of
  the Adam optimizer with its moment estimates of type \<open>'o\<close>.
\<close>

record ('b, 'p, 'g, 'o) collab =
  style_iter :: "nat \<Rightarrow> error + 'b"
  train_content_iter :: "nat \<Rightarrow> error + 'b"
  val_content_iter :: "nat \<Rightarrow> error + 'b"
  network :: "bool \<Rightarrow> 'p \<Rightarrow> 'b \<Rightarrow> 'b \<Rightarrow> error + real \<times> real"
  gradient :: "'p \<Rightarrow> 'b \<Rightarrow> 'b \<Rightarrow> real \<Rightarrow> real \<Rightarrow> 'g"
  accumulate :: "'g \<Rightarrow> 'g \<Rightarrow> 'g"
  adam :: "param_group list \<Rightarrow> 'p \<Rightarrow> 'g option \<Rightarrow> 'o \<Rightarrow> 'p \<times> 'o"

text \<open>
  The calls the loop makes on the network and the optimizer, in order. \<open>Forward\<close>
  records whether gradient tracking is on, the content batch and the style batch;
  \<open>Backward\<close> records the value of the loss that is backpropagated.
\<close>

datatype 'b event =
    NetTrain
  | NetEval
  | Forward bool 'b 'b
  | ZeroGrad
  | Backward real
  | OptimizerStep

text \<open>
  A value sent to the summary writer: the learning rate, a float, or a loss, the item of
  a tensor.
\<close>

datatype scalar = FloatValue double | LossValue real

text \<open>
  The state of the loop: the optimizer, the decoder parameters and their gradients
  (\<open>None\<close> when cleared), the mode of the network, the number of batches pulled from each
  iterator, the scalars sent to the summary writer (tag, value, step), the progress
  lines printed (rate, training total, validation total), the checkpoints written (path
  and parameter snapshot, in order) and the calls made so far.
\<close>

record ('b, 'p, 'g, 'o) state =
  optimizer :: "'o optimizer"
  params :: 'p
  grads :: "'g option"
  training :: bool
  style_pos :: nat
  train_pos :: nat
  val_pos :: nat
  scalars :: "(string \<times> scalar \<times> int) list"
  stdout :: "(double \<times> real \<times> real) list"
  saved :: "(string \<times> 'p) list"
  calls :: "'b event list"

text \<open>Python's \<^verbatim>\<open>%\<close> on integers: the result has the sign of the divisor; a zero divisor raises.\<close>

definition py_mod :: "int \<Rightarrow> int \<Rightarrow> error + int" where
  "py_mod x y = (if y = 0 then Inl ZeroDivisionError else Inr (x mod y))"

text \<open>Lines 179--192, the training part of an iteration; it returns \<^verbatim>\<open>train_loss\<close>.\<close>

definition train_part ::
  "('b, 'p, 'g, 'o) collab \<Rightarrow> args \<Rightarrow> int \<Rightarrow> 'b \<Rightarrow> ('b, 'p, 'g, 'o) state
     \<Rightarrow> error + (real \<times> ('b, 'p, 'g, 'o) state)" where
  "train_part C a i style_images st =
     (let st1 = st\<lparr>training := True, calls := calls st @ [NetTrain]\<rparr> in
      case train_content_iter C (train_pos st1) of Inl e \<Rightarrow> Inl e
      | Inr train_content_images \<Rightarrow>
      let st2 = st1\<lparr>train_pos := Suc (train_pos st1),
                    calls := calls st1 @ [Forward True train_content_images style_images]\<rparr> in
      case network C (training st2) (params st2) train_content_images style_images of
        Inl e \<Rightarrow> Inl e
      | Inr (loss_c, loss_s) \<Rightarrow>
      let train_loss_c = content_weight a * loss_c;
          train_loss_s = style_weight a * loss_s;
          train_loss = train_loss_c + train_loss_s;
          st3 = st2\<lparr>grads := None, calls := calls st2 @ [ZeroGrad]\<rparr>;
          g = gradient C (params st3) train_content_images style_images
                (content_weight a) (style_weight a);
          st4 = st3\<lparr>grads := Some (case grads st3 of None \<Rightarrow> g | Some g0 \<Rightarrow> accumulate C g0 g),
                    calls := calls st3 @ [Backward train_loss]\<rparr>;
          (params', moments') =
             adam C (param_groups (optimizer st4)) (params st4) (grads st4)
               (moments (optimizer st4));
          st5 = st4\<lparr>params := params',
                    optimizer := (optimizer st4)\<lparr>moments := moments'\<rparr>,
                    calls := calls st4 @ [OptimizerStep]\<rparr>
      in Inr (train_loss,
              st5\<lparr>scalars := scalars st5 @
                      [(''train loss_content'', LossValue train_loss_c, i + 1),
                       (''train loss_style'', LossValue train_loss_s, i + 1)]\<rparr>))"

text \<open>Lines 194--204, the validation part of an iteration; it returns \<^verbatim>\<open>val_loss\<close>.\<close>

definition val_part ::
  "('b, 'p, 'g, 'o) collab \<Rightarrow> args \<Rightarrow> int \<Rightarrow> 'b \<Rightarrow> ('b, 'p, 'g, 'o) state
     \<Rightarrow> error + (real \<times> ('b, 'p, 'g, 'o) state)" where
  "val_part C a i style_images st =
     (let st1 = st\<lparr>training := False, calls := calls st @ [NetEval]\<rparr> in
      case val_content_iter C (val_pos st1) of Inl e \<Rightarrow> Inl e
      | Inr val_content_images \<Rightarrow>
      let st2 = st1\<lparr>val_pos := Suc (val_pos st1),
                    calls := calls st1 @ [Forward False val_content_images style_images]\<rparr> in
      case network C (training st2) (params st2) val_content_images style_images of
        Inl e \<Rightarrow> Inl e
      | Inr (loss_c, loss_s) \<Rightarrow>
      let val_loss_c = content_weight a * loss_c;
          val_loss_s = style_weight a * loss_s;
          val_loss = val_loss_c + val_loss_s
      in Inr (val_loss,
              st2\<lparr>scalars := scalars st2 @
                      [(''val loss_content'', LossValue val_loss_c, i + 1),
                       (''val loss_style'', LossValue val_loss_s, i + 1)]\<rparr>))"

text \<open>Line 215: the checkpoint of the completed iteration count \<open>n\<close>.\<close>

definition checkpoint_name :: "int \<Rightarrow> string" where
  "checkpoint_name n = ''decoder_iter_'' @ str_int n @ ''.pth.tar''"

definition checkpoint_path :: "args \<Rightarrow> int \<Rightarrow> string" where
  "checkpoint_path a n = child (save_dir a) (checkpoint_name n)"

text \<open>Lines 206--215: the progress line and the checkpoint.\<close>

definition print_part ::
  "args \<Rightarrow> int \<Rightarrow> double \<Rightarrow> real \<Rightarrow> real \<Rightarrow> ('b, 'p, 'g, 'o) state
     \<Rightarrow> error + ('b, 'p, 'g, 'o) state" where
  "print_part a i cur_lr train_loss val_loss st =
     (case py_mod (i + 1) (loss_print_interval a) of Inl e \<Rightarrow> Inl e
      | Inr r \<Rightarrow>
          if r = 0 then Inr (st\<lparr>stdout := stdout st @ [(cur_lr, train_loss, val_loss)]\<rparr>)
          else Inr st)"

definition save_part ::
  "args \<Rightarrow> int \<Rightarrow> ('b, 'p, 'g, 'o) state \<Rightarrow> error + ('b, 'p, 'g, 'o) state" where
  "save_part a i st =
     (case py_mod (i + 1) (save_model_interval a) of Inl e \<Rightarrow> Inl e
      | Inr r \<Rightarrow>
          if r = 0 \<or> i + 1 = max_iter a then
            let state_dict = params st
            in Inr (st\<lparr>saved := saved st @ [(checkpoint_path a (i + 1), state_dict)]\<rparr>)
          else Inr st)"

text \<open>Lines 173--215, the body of the loop for the index \<open>i\<close>.\<close>

definition iteration ::
  "('b, 'p, 'g, 'o) collab \<Rightarrow> args \<Rightarrow> int \<Rightarrow> ('b, 'p, 'g, 'o) state
     \<Rightarrow> error + ('b, 'p, 'g, 'o) state" where
  "iteration C a i st =
     (case adjust_learning_rate a (optimizer st) i of Inl e \<Rightarrow> Inl e
      | Inr opt \<Rightarrow>
      case list_index (param_groups opt) 0 of Inl e \<Rightarrow> Inl e
      | Inr group0 \<Rightarrow>
      let cur_lr = pg_lr group0;
          st1 = st\<lparr>optimizer := opt,
                   scalars := scalars st @ [(''Learning rate'', FloatValue cur_lr, i + 1)]\<rparr> in
      case style_iter C (style_pos st1) of Inl e \<Rightarrow> Inl e
      | Inr style_images \<Rightarrow>
      let st2 = st1\<lparr>style_pos := Suc (style_pos st1)\<rparr> in
      case train_part C a i style_images st2 of Inl e \<Rightarrow> Inl e
      | Inr (train_loss, st3) \<Rightarrow>
      case val_part C a i style_images st3 of Inl e \<Rightarrow> Inl e
      | Inr (val_loss, st4) \<Rightarrow>
      case print_part a i cur_lr train_loss val_loss st4 of Inl e \<Rightarrow> Inl e
      | Inr st5 \<Rightarrow> save_part a i st5)"

text \<open>\<^verbatim>\<open>range(n)\<close> and the loop over it; an iteration that raises ends the run.\<close>

definition py_range :: "int \<Rightarrow> int list" where
  "py_range n = [0..n - 1]"

fun loop ::
  "('b, 'p, 'g, 'o) collab \<Rightarrow> args \<Rightarrow> int list \<Rightarrow> ('b, 'p, 'g, 'o) state
     \<Rightarrow> error + ('b, 'p, 'g, 'o) state" where
  "loop C a [] st = Inr st"
| "loop C a (i # is) st =
     (case iteration C a i st of Inl e \<Rightarrow> Inl e | Inr st' \<Rightarrow> loop C a is st')"

definition train ::
  "('b, 'p, 'g, 'o) collab \<Rightarrow> args \<Rightarrow> ('b, 'p, 'g, 'o) state
     \<Rightarrow> error + ('b, 'p, 'g, 'o) state" where
  "train C a st = loop C a (py_range (max_iter a)) st"

text \<open>
  Line 170 and the state before the first iteration: Adam over the decoder parameters
  with one parameter group at the base rate, nothing pulled, logged or saved yet.
\<close>

definition initial_state :: "args \<Rightarrow> 'p \<Rightarrow> 'o \<Rightarrow> ('b, 'p, 'g, 'o) state" where
  "initial_state a decoder_params moments0 =
     \<lparr>optimizer = \<lparr>param_groups = [\<lparr>pg_lr = lr a\<rparr>], moments = moments0\<rparr>,
      params = decoder_params, grads = None, training = True,
      style_pos = 0, train_pos = 0, val_pos = 0,
      scalars = [], stdout = [], saved = [], calls = []\<rparr>"

section \<open>Concrete inputs\<close>

text \<open>
  A small configuration, the end-to-end scenario of three iterations with a checkpoint
  every second iteration and a progress line at every iteration, and collaborators over
  natural numbers: the \<open>k\<close>-th batch of a stream is a number, the forward pass returns
  the losses \<open>1\<close> and \<open>2\<close>, and an optimizer step counts up the parameters and the
  moments. The base rate \<open>2\<^sup>-\<^sup>1\<^sup>3\<close> and the decay \<open>2\<^sup>-\<^sup>1\<^sup>7\<close> are binary64 values.
\<close>

definition example_args :: args where
  "example_args =
     \<lparr>train_content_dir = ''content'', val_content_dir = ''val'', style_dir = ''style'',
      vgg = ''models/vgg_normalised.pth'', save_dir = ''./experiments'', log_dir = ''./logs'',
      lr = Finite (1 / 2 ^ 13), lr_decay = Finite (1 / 2 ^ 17), max_iter = 3, batch_size = 2,
      style_weight = 1, content_weight = 1, n_threads = 16,
      save_model_interval = 2, loss_print_interval = 1\<rparr>"

definition example_collab :: "(nat, nat, nat, nat) collab" where
  "example_collab =
     \<lparr>style_iter = (\<lambda>k. Inr (100 + k)),
      train_content_iter = (\<lambda>k. Inr k),
      val_content_iter = (\<lambda>k. Inr (200 + k)),
      network = (\<lambda>mode p c s. Inr (1, 2)),
      gradient = (\<lambda>p c s cw sw. 1),
      accumulate = (\<lambda>g0 g. g0 + g),
      adam = (\<lambda>groups p g m. (Suc p, Suc m))\<rparr>"

definition example_state :: "(nat, nat, nat, nat) state" where
  "example_state = initial_state example_args 0 0"

text \<open>
  The same collaborators with a forward pass that tells its arguments apart: the
  content loss is the number of the content batch, the style loss that of the style
  batch.
\<close>

definition probe_collab :: "(nat, nat, nat, nat) collab" where
  "probe_collab =
     \<lparr>style_iter = (\<lambda>k. Inr (100 + k)),
      train_content_iter = (\<lambda>k. Inr k),
      val_content_iter = (\<lambda>k. Inr (200 + k)),
      network = (\<lambda>mode p c s. Inr (real c, real s)),
      gradient = (\<lambda>p c s cw sw. 1),
      accumulate = (\<lambda>g0 g. g0 + g),
      adam = (\<lambda>groups p g m. (Suc p, Suc m))\<rparr>"

text \<open>Seeding functions that succeed, and two processes that differ before seeding.\<close>

definition example_rng_lib :: "int rng_lib" where
  "example_rng_lib =
     \<lparr>random_seed = (\<lambda>s. Inr s), np_random_seed = (\<lambda>s. Inr (s + 1)),
      torch_manual_seed = (\<lambda>s. Inr (s + 2)), torch_cuda_manual_seed = (\<lambda>s. Inr (s + 3))\<rparr>"

definition example_process :: "int \<Rightarrow> int process" where
  "example_process g =
     \<lparr>gens = \<lparr>py_random = g, np_random = g + 10, torch_cpu = g + 20, torch_cuda = [g + 30]\<rparr>,
      environ = Map.empty, print_precision = 4, cudnn_benchmark = True,
      cudnn_deterministic = False\<rparr>"

text \<open>A permutation draw that reads and advances the NumPy generator.\<close>

definition example_permutation :: "int generators \<Rightarrow> nat \<Rightarrow> nat list \<times> int generators" where
  "example_permutation g n =
     (if even (np_random g) then rev [0..<n] else [0..<n], g\<lparr>np_random := np_random g + 1\<rparr>)"

text \<open>
  A file system with a directory of two entries and a path below a directory that may
  not be searched, and an imaging library over strings: a file decodes to its contents
  when they are not empty.
\<close>

definition example_fs :: "string filesystem" where
  "example_fs path =
     (if path = ''imgs'' then Dir [''b.png'', ''a.jpg'']
      else if path = ''imgs/b.png'' then File ''B''
      else if path = ''imgs/a.jpg'' then File ''A''
      else if path = ''private/imgs'' then Failing (Raised ''PermissionError'')
      else Missing)"

definition example_image_lib :: "(string, string) image_lib" where
  "example_image_lib =
     \<lparr>resize = (\<lambda>h w img. Inr (img @ ''r'')),
      to_tensor = (\<lambda>img. Inr (img @ ''t'')),
      image_open_rgb = (\<lambda>fs path.
         case fs path of
           File c \<Rightarrow> (if c = [] then Inl (Raised ''UnidentifiedImageError'') else Inr c)
         | Dir _ \<Rightarrow> Inl (Raised ''IsADirectoryError'')
         | Unlistable \<Rightarrow> Inl (Raised ''IsADirectoryError'')
         | Missing \<Rightarrow> Inl (Raised ''FileNotFoundError'')
         | Failing e \<Rightarrow> Inl e)\<rparr>"

section \<open>Properties\<close>

subsection \<open>Decimal rendering is injective\<close>

lemma digit_char_inj: "m < 10 \<Longrightarrow> n < 10 \<Longrightarrow> digit_char m = digit_char n \<Longrightarrow> m = n"
proof -
  assume m: "m < 10" and n: "n < 10" and e: "digit_char m = digit_char n"
  have d: "distinct ''0123456789''" by simp
  have l: "length ''0123456789'' = 10" by simp
  from e have "''0123456789'' ! m = ''0123456789'' ! n" by (simp only: digit_char_def)
  with d l m n show "m = n" by (simp only: nth_eq_iff_index_eq)
qed

lemma str_nat_nonempty: "str_nat n \<noteq> []"
  by (subst str_nat.simps) simp

lemma str_nat_inj: "str_nat m = str_nat n \<Longrightarrow> m = n"
proof (induction m arbitrary: n rule: str_nat.induct)
  case (1 m)
  show ?case
  proof (cases "m < 10")
    case True
    note m = True
    show ?thesis
    proof (cases "n < 10")
      case True
      from "1.prems" m True have "digit_char m = digit_char n"
        by (subst (asm) str_nat.simps, subst (asm) (2) str_nat.simps) simp
      with m True show ?thesis by (rule digit_char_inj)
    next
      case False
      from "1.prems" m False have "[digit_char m] = str_nat (n div 10) @ [digit_char (n mod 10)]"
        by (subst (asm) str_nat.simps, subst (asm) (2) str_nat.simps) simp
      then have "str_nat (n div 10) = []" by simp
      then show ?thesis by (simp only: str_nat_nonempty)
    qed
  next
    case False
    note m = False
    show ?thesis
    proof (cases "n < 10")
      case True
      from "1.prems" m True have "str_nat (m div 10) @ [digit_char (m mod 10)] = [digit_char n]"
        by (subst (asm) str_nat.simps, subst (asm) (2) str_nat.simps) simp
      then have "str_nat (m div 10) = []" by simp
      then show ?thesis by (simp only: str_nat_nonempty)
    next
      case False
      from "1.prems" m False
      have "str_nat (m div 10) @ [digit_char (m mod 10)] = str_nat (n div 10) @ [digit_char (n mod 10)]"
        by (subst (asm) str_nat.simps, subst (asm) (2) str_nat.simps) simp
      then have a: "str_nat (m div 10) = str_nat (n div 10)" and b: "digit_char (m mod 10) = digit_char (n mod 10)"
        by simp_all
      from "1.IH"[OF m a] have q: "m div 10 = n div 10" .
      have "m mod 10 = n mod 10" by (rule digit_char_inj[OF _ _ b]) simp_all
      with q show ?thesis by (metis div_mult_mod_eq)
    qed
  qed
qed

lemma str_int_inj: "0 \<le> i \<Longrightarrow> 0 \<le> j \<Longrightarrow> str_int i = str_int j \<Longrightarrow> i = j"
proof -
  assume "0 \<le> i" "0 \<le> j" "str_int i = str_int j"
  then have "str_nat (nat i) = str_nat (nat j)" by (simp add: str_int_def)
  then have "nat i = nat j" by (rule str_nat_inj)
  with \<open>0 \<le> i\<close> \<open>0 \<le> j\<close> show "i = j" by simp
qed

lemma checkpoint_path_inj:
  "0 \<le> i \<Longrightarrow> 0 \<le> j \<Longrightarrow> checkpoint_path a i = checkpoint_path a j \<Longrightarrow> i = j"
  by (simp add: checkpoint_path_def checkpoint_name_def child_def str_int_inj)


subsection \<open>Rounding\<close>

lemma round_even_bounds: "\<lfloor>r\<rfloor> \<le> round_even r \<and> round_even r \<le> \<lfloor>r\<rfloor> + 1"
  by (simp add: round_even_def Let_def)

lemma round_even_of_int [simp]: "round_even (of_int n) = n"
  by (simp add: round_even_def Let_def)

lemma round_even_mono: "r \<le> s \<Longrightarrow> round_even r \<le> round_even s"
proof -
  assume rs: "r \<le> s"
  then have f: "\<lfloor>r\<rfloor> \<le> \<lfloor>s\<rfloor>" by (rule floor_mono)
  show ?thesis
  proof (cases "\<lfloor>r\<rfloor> < \<lfloor>s\<rfloor>")
    case True
    with round_even_bounds[of r] round_even_bounds[of s] show ?thesis by linarith
  next
    case False
    with f have e: "\<lfloor>r\<rfloor> = \<lfloor>s\<rfloor>" by simp
    with rs show ?thesis by (auto simp: round_even_def Let_def)
  qed
qed

lemma round_even_ge: "of_int n \<le> r \<Longrightarrow> n \<le> round_even r"
  using round_even_mono[of "of_int n" r] by simp

lemma round_even_le: "r \<le> of_int n \<Longrightarrow> round_even r \<le> n"
  using round_even_mono[of r "of_int n"] by simp

lemma exponent_upper: "0 < x \<Longrightarrow> x < 2 powr of_int (exponent x + 1)"
proof -
  assume x: "0 < x"
  have "log 2 x < of_int (\<lfloor>log 2 x\<rfloor> + 1)" by linarith
  also have "\<dots> \<le> of_int (exponent x + 1)" using x by (simp add: exponent_def)
  finally have "log 2 x < of_int (exponent x + 1)" .
  with x show ?thesis by (simp add: log_less_iff)
qed

lemma exponent_lower: "0 < x \<Longrightarrow> - 1022 < exponent x \<Longrightarrow> 2 powr of_int (exponent x) \<le> x"
proof -
  assume x: "0 < x" and e: "- 1022 < exponent x"
  then have "exponent x = \<lfloor>log 2 x\<rfloor>" by (simp add: exponent_def max_def split: if_splits)
  then have "of_int (exponent x) \<le> log 2 x" by simp
  with x show ?thesis by (simp add: le_log_iff)
qed

lemma exponent_mono: "0 < x \<Longrightarrow> x \<le> y \<Longrightarrow> exponent x \<le> exponent y"
proof -
  assume x: "0 < x" and xy: "x \<le> y"
  then have "log 2 x \<le> log 2 y" by simp
  then have "\<lfloor>log 2 x\<rfloor> \<le> \<lfloor>log 2 y\<rfloor>" by (rule floor_mono)
  with x xy show ?thesis by (simp add: exponent_def)
qed

lemma exponent_ge: "- 1022 \<le> exponent x"
  by (simp add: exponent_def)

lemma round_nearest_nonneg: "0 \<le> x \<Longrightarrow> 0 \<le> round_nearest x"
proof -
  assume x: "0 \<le> x"
  show ?thesis
  proof (cases "x = 0")
    case True then show ?thesis by (simp add: round_nearest_def)
  next
    case False
    have "0 \<le> x / 2 powr of_int (exponent x - 52)" using x by simp
    then have "0 \<le> round_even (x / 2 powr of_int (exponent x - 52))"
      using round_even_ge[of 0] by simp
    with False show ?thesis by (simp add: round_nearest_def Let_def)
  qed
qed

text \<open>
  Rounding is monotone: within a binade the grid is the same, and across binades the
  power of two between them separates the two results.
\<close>

lemma round_nearest_mono_pos:
  assumes x: "0 < x" and xy: "x \<le> y"
  shows "round_nearest x \<le> round_nearest y"
proof -
  from x xy have y: "0 < y" by simp
  let ?ex = "exponent x" and ?ey = "exponent y"
  let ?ux = "(2::real) powr of_int (?ex - 52)" and ?uy = "(2::real) powr of_int (?ey - 52)"
  have rx: "round_nearest x = of_int (round_even (x / ?ux)) * ?ux"
    using x by (simp add: round_nearest_def Let_def)
  have ry: "round_nearest y = of_int (round_even (y / ?uy)) * ?uy"
    using y by (simp add: round_nearest_def Let_def)
  from exponent_mono[OF x xy] have le: "?ex \<le> ?ey" .
  show ?thesis
  proof (cases "?ex = ?ey")
    case True
    have "x / ?ux \<le> y / ?ux" using xy by (simp add: divide_right_mono)
    then have "round_even (x / ?ux) \<le> round_even (y / ?ux)" by (rule round_even_mono)
    then have "of_int (round_even (x / ?ux)) * ?ux \<le> of_int (round_even (y / ?ux)) * ?ux"
      by (simp add: mult_right_mono)
    with rx ry True show ?thesis by simp
  next
    case False
    with le have lt: "?ex < ?ey" by simp
    with exponent_ge[of x] have "- 1022 < ?ey" by linarith
    from exponent_lower[OF y this] have ly: "2 powr of_int ?ey \<le> y" .
    have uy: "(2::real) powr of_int ?ey = 2 ^ 52 * ?uy"
    proof -
      have "(2::real) powr of_int ?ey = 2 powr (52 + of_int (?ey - 52))" by simp
      also have "\<dots> = 2 powr 52 * ?uy" by (simp only: powr_add)
      finally show ?thesis by simp
    qed
    with ly have "2 ^ 52 \<le> y / ?uy" by (simp add: le_divide_eq)
    then have "of_int (2 ^ 52) \<le> y / ?uy" by simp
    then have "2 ^ 52 \<le> round_even (y / ?uy)" by (rule round_even_ge)
    then have "(2 ^ 52 :: real) \<le> of_int (round_even (y / ?uy))"
      by (metis of_int_le_iff of_int_numeral of_int_power)
    then have "2 ^ 52 * ?uy \<le> of_int (round_even (y / ?uy)) * ?uy"
      by (simp add: mult_right_mono)
    with uy ry have Y: "2 powr of_int ?ey \<le> round_nearest y" by simp
    have ux: "(2::real) powr of_int (?ex + 1) = 2 ^ 53 * ?ux"
    proof -
      have "(2::real) powr of_int (?ex + 1) = 2 powr (53 + of_int (?ex - 52))"
        by (simp add: add.commute)
      also have "\<dots> = 2 powr 53 * ?ux" by (simp only: powr_add)
      finally show ?thesis by simp
    qed
    from exponent_upper[OF x] ux have "x / ?ux \<le> 2 ^ 53" by (simp add: divide_le_eq)
    then have "x / ?ux \<le> of_int (2 ^ 53)" by simp
    then have "round_even (x / ?ux) \<le> 2 ^ 53" by (rule round_even_le)
    then have "of_int (round_even (x / ?ux)) \<le> (2 ^ 53 :: real)"
      by (metis of_int_le_iff of_int_numeral of_int_power)
    then have "of_int (round_even (x / ?ux)) * ?ux \<le> 2 ^ 53 * ?ux"
      by (simp add: mult_right_mono)
    with rx ux have X: "round_nearest x \<le> 2 powr of_int (?ex + 1)" by simp
    from lt have "(2::real) powr of_int (?ex + 1) \<le> 2 powr of_int ?ey"
      by simp
    with X Y show ?thesis by linarith
  qed
qed

lemma round_nearest_mono: "0 \<le> x \<Longrightarrow> x \<le> y \<Longrightarrow> round_nearest x \<le> round_nearest y"
proof -
  assume x: "0 \<le> x" and xy: "x \<le> y"
  show ?thesis
  proof (cases "x = 0")
    case True
    with xy round_nearest_nonneg[of y] show ?thesis by (simp add: round_nearest_def)
  next
    case False
    with x have "0 < x" by simp
    then show ?thesis using xy by (rule round_nearest_mono_pos)
  qed
qed

text \<open>A power of two in the normal range is a binary64 value.\<close>

lemma round_nearest_pow2: "- 1022 \<le> k \<Longrightarrow> round_nearest (2 powr of_int k) = 2 powr of_int k"
proof -
  assume k: "- 1022 \<le> k"
  have "log 2 (2 powr of_int k) = of_int k" by simp
  then have e: "exponent (2 powr of_int k) = k" using k by (simp add: exponent_def)
  have "(2::real) powr of_int k = 2 powr (52 + of_int (k - 52))" by simp
  also have "\<dots> = 2 powr 52 * 2 powr of_int (k - 52)" by (simp only: powr_add)
  finally have d: "(2::real) powr of_int k / 2 powr of_int (k - 52) = of_int (2 ^ 52)" by simp
  show ?thesis
    unfolding round_nearest_def Let_def e d round_even_of_int
    using d by (simp add: field_simps)
qed

lemma round_nearest_0 [simp]: "round_nearest 0 = 0"
  by (simp add: round_nearest_def)

lemma round_nearest_1 [simp]: "round_nearest 1 = 1"
  using round_nearest_pow2[of 0] by simp

lemma round_nearest_2 [simp]: "round_nearest 2 = 2"
  using round_nearest_pow2[of 1] by simp

lemma round_nearest_half: "round_nearest (1 / 2) = 1 / 2"
proof -
  have "(2::real) powr of_int (- 1) = 1 / 2" by (simp add: powr_minus_divide)
  with round_nearest_pow2[of "- 1"] show ?thesis by simp
qed

lemma round64_0 [simp]: "round64 0 = Finite 0"
  by (simp add: round64_def)

lemma one_lt_big: "(1::real) < 2 ^ 1024"
  by (rule one_less_power) simp_all

lemma big_pos: "(0::real) < 2 ^ 1024"
  by (rule zero_less_power) simp

lemma not_le_minus_big: "0 \<le> y \<Longrightarrow> \<not> y \<le> - ((2::real) ^ 1024)"
  using big_pos by linarith

lemma round64_1 [simp]: "round64 1 = Finite 1"
  using one_lt_big by (simp add: round64_def)

lemma round64_2 [simp]: "round64 2 = Finite 2"
proof -
  have "(2::real) ^ 1 < 2 ^ 1024" by (rule power_strict_increasing) simp_all
  then have "\<not> (2::real) ^ 1024 \<le> 2" by simp
  moreover have "\<not> (2::real) \<le> - (2 ^ 1024)" by (rule not_le_minus_big) simp
  ultimately show ?thesis unfolding round64_def Let_def round_nearest_2 by simp
qed

lemma round64_half: "round64 (1 / 2) = Finite (1 / 2)"
proof -
  have "\<not> (2::real) ^ 1024 \<le> 1 / 2" using one_lt_big by simp
  moreover have "\<not> (1::real) / 2 \<le> - (2 ^ 1024)" by (rule not_le_minus_big) simp
  ultimately show ?thesis unfolding round64_def Let_def round_nearest_half by simp
qed

lemma round64_pow2:
  assumes "- 1022 \<le> k" "k \<le> 1023"
  shows "round64 (2 powr of_int k) = Finite (2 powr of_int k)"
proof -
  have "(2::real) powr of_int k \<le> 2 powr of_int 1023"
    by (rule powr_mono) (use assms(2) in simp_all)
  also have "(2::real) powr of_int 1023 = 2 ^ 1023" by (simp add: powr_realpow)
  also have "(2::real) ^ 1023 < 2 ^ 1024" by (rule power_strict_increasing) simp_all
  finally have 1: "\<not> (2::real) ^ 1024 \<le> 2 powr of_int k" by simp
  have "(0::real) < 2 powr of_int k" by simp
  then have 2: "\<not> (2::real) powr of_int k \<le> - (2 ^ 1024)"
    by (intro not_le_minus_big less_imp_le)
  show ?thesis
    unfolding round64_def Let_def round_nearest_pow2[OF assms(1)] using 1 2 by simp
qed

lemma example_base: "round64 (1 / 2 ^ 13) = Finite (1 / 2 ^ 13)"
proof -
  have e: "(2::real) powr of_int (- 13) = 1 / 2 ^ 13" by (simp add: powr_minus_divide)
  have "round64 (2 powr of_int (- 13)) = Finite (2 powr of_int (- 13))"
    by (rule round64_pow2) simp_all
  then show ?thesis unfolding e .
qed

lemma round64_nonneg:
  assumes "0 \<le> x"
  shows "(round64 x = PosInf \<and> 2 ^ 1024 \<le> round_nearest x)
       \<or> (round64 x = Finite (round_nearest x) \<and> round_nearest x < 2 ^ 1024)"
proof -
  from assms have "0 \<le> round_nearest x" by (rule round_nearest_nonneg)
  then have "\<not> round_nearest x \<le> - (2 ^ 1024)" by (rule not_le_minus_big)
  then show ?thesis by (auto simp: round64_def Let_def)
qed

lemma round64_mono:
  assumes "0 \<le> x" "x \<le> y"
  shows "float_le (round64 x) (round64 y)"
proof -
  from assms have y: "0 \<le> y" by simp
  from assms have m: "round_nearest x \<le> round_nearest y" by (rule round_nearest_mono)
  from round64_nonneg[OF assms(1)] round64_nonneg[OF y] m show ?thesis by auto
qed

lemma round64_ge0: "0 \<le> x \<Longrightarrow> float_le (Finite 0) (round64 x)"
  using round64_mono[of 0 x] by simp

lemma float_of_int_nonneg:
  assumes "0 \<le> n"
  shows "float_of_int n =
     (if round_nearest (of_int n) < 2 ^ 1024 then Inr (Finite (round_nearest (of_int n)))
      else Inl OverflowError)"
proof -
  from assms have "(0::real) \<le> of_int n" by simp
  from round64_nonneg[OF this] show ?thesis by (auto simp: float_of_int_def)
qed

lemma float_of_int_0 [simp]: "float_of_int 0 = Inr (Finite 0)"
  by (simp add: float_of_int_def)

lemma float_of_int_1 [simp]: "float_of_int 1 = Inr (Finite 1)"
  by (simp add: float_of_int_def)

text \<open>An integer up to \<open>2\<^sup>1\<^sup>0\<^sup>2\<^sup>3\<close> converts.\<close>

lemma float_of_int_defined:
  assumes "0 \<le> n" "n \<le> 2 ^ 1023"
  shows "float_of_int n = Inr (Finite (round_nearest (of_int n)))"
proof -
  have p: "(2::real) powr of_int 1023 = 2 ^ 1023" by (simp add: powr_realpow)
  have "(of_int n :: real) \<le> of_int (2 ^ 1023)" using assms(2) by (simp only: of_int_le_iff)
  then have "(of_int n :: real) \<le> 2 ^ 1023" by simp
  moreover have "(0::real) \<le> of_int n" using assms(1) by simp
  ultimately have "round_nearest (of_int n) \<le> round_nearest (2 ^ 1023)"
    by (simp only: round_nearest_mono)
  also have "round_nearest (2 ^ 1023) = (2::real) ^ 1023"
    using round_nearest_pow2[of 1023] unfolding p by simp
  also have "(2::real) ^ 1023 < 2 ^ 1024" by (rule power_strict_increasing) simp_all
  finally show ?thesis using assms(1) by (simp add: float_of_int_nonneg)
qed

subsection \<open>The schedule in float arithmetic\<close>

text \<open>
  For a decay and a count that are not negative the divisor \<open>1.0 + decay * count\<close> is
  infinite or at least \<open>1\<close>.
\<close>

lemma denominator_cases:
  assumes "0 \<le> p"
  shows "(float_add (Finite 1) (round64 p) = PosInf)
       \<or> (round64 p = Finite (round_nearest p)
          \<and> float_add (Finite 1) (round64 p) = Finite (round_nearest (1 + round_nearest p))
          \<and> 1 \<le> round_nearest (1 + round_nearest p))"
proof -
  from assms have q: "0 \<le> round_nearest p" by (rule round_nearest_nonneg)
  then have s: "0 \<le> 1 + round_nearest p" by simp
  have "round_nearest 1 \<le> round_nearest (1 + round_nearest p)"
    by (rule round_nearest_mono) (use q in simp_all)
  then have 1: "1 \<le> round_nearest (1 + round_nearest p)" by simp
  from round64_nonneg[OF assms] round64_nonneg[OF s] 1 show ?thesis by auto
qed

lemma quotient_cases:
  assumes "0 \<le> b" "1 \<le> s"
  shows "float_truediv (Finite b) (Finite s) = Inr (round64 (b / s))"
    and "float_truediv (Finite b) PosInf = Inr (Finite 0)"
  using assms by (auto simp: float_truediv_def)

lemma rate_defined:
  assumes d: "0 \<le> d" and n: "0 \<le> n" and f: "float_of_int n = Inr fn"
  shows "\<exists>r. rate base (Finite d) n = Inr r"
proof -
  from f n have fn: "fn = Finite (round_nearest (of_int n))"
    by (simp add: float_of_int_nonneg split: if_splits)
  have "(0::real) \<le> of_int n" using n by simp
  then have "0 \<le> round_nearest (of_int n)" by (rule round_nearest_nonneg)
  with d have p: "0 \<le> d * round_nearest (of_int n)" by simp
  from denominator_cases[OF p]
  have "float_add (Finite 1) (round64 (d * round_nearest (of_int n))) \<noteq> Finite 0" by auto
  then show ?thesis using f fn by (simp add: rate_def float_truediv_def)
qed

lemma rate_at_zero:
  assumes "round64 b = Finite b"
  shows "rate (Finite b) (Finite d) 0 = Inr (Finite b)"
  using assms by (simp add: rate_def float_truediv_def)

lemma rate_decay_zero:
  assumes "round64 b = Finite b" and "float_of_int n = Inr fn"
  shows "rate (Finite b) (Finite 0) n = Inr (Finite b)"
proof -
  from assms(2) obtain y where "fn = Finite y"
    by (cases "round64 (of_int n)") (auto simp: float_of_int_def)
  with assms show ?thesis by (simp add: rate_def float_truediv_def)
qed

lemma rate_mono:
  assumes b: "0 \<le> b" and d: "0 \<le> d" and m: "0 \<le> m" and mn: "m \<le> n"
    and r: "rate (Finite b) (Finite d) n = Inr rn"
  shows "\<exists>rm. rate (Finite b) (Finite d) m = Inr rm \<and> float_le rn rm"
proof -
  let ?am = "round_nearest (of_int m)" and ?an = "round_nearest (of_int n)"
  from m mn have n: "0 \<le> n" by simp
  from r obtain fn where fn: "float_of_int n = Inr fn" by (auto simp: rate_def split: sum.splits)
  with n have an: "?an < 2 ^ 1024" "fn = Finite ?an"
    by (simp_all add: float_of_int_nonneg split: if_splits)
  have am0: "0 \<le> ?am" using m by (simp add: round_nearest_nonneg)
  have aman: "?am \<le> ?an" using m mn by (simp add: round_nearest_mono)
  with an have "?am < 2 ^ 1024" by simp
  with m have fm: "float_of_int m = Inr (Finite ?am)" by (simp add: float_of_int_nonneg)
  let ?pm = "d * ?am" and ?pn = "d * ?an"
  have pm0: "0 \<le> ?pm" using d am0 by simp
  have pmn: "?pm \<le> ?pn" using d aman by (simp add: mult_left_mono)
  then have pn0: "0 \<le> ?pn" using pm0 by simp
  let ?Sm = "float_add (Finite 1) (round64 ?pm)" and ?Sn = "float_add (Finite 1) (round64 ?pn)"
  have rm_eq: "rate (Finite b) (Finite d) m = float_truediv (Finite b) ?Sm"
    using fm by (simp add: rate_def)
  have rn_eq: "rate (Finite b) (Finite d) n = float_truediv (Finite b) ?Sn"
    using fn an by (simp add: rate_def)
  let ?sm = "round_nearest (1 + round_nearest ?pm)" and ?sn = "round_nearest (1 + round_nearest ?pn)"
  have low: "float_le (Finite 0) rm" if "float_truediv (Finite b) ?Sm = Inr rm" for rm
  proof -
    from denominator_cases[OF pm0] show ?thesis
    proof
      assume "?Sm = PosInf"
      with that have "rm = Finite 0" by (simp add: float_truediv_def)
      then show ?thesis by simp
    next
      assume a: "round64 ?pm = Finite (round_nearest ?pm) \<and> ?Sm = Finite ?sm \<and> 1 \<le> ?sm"
      then have Sm: "?Sm = Finite ?sm" and s1: "1 \<le> ?sm" by blast+
      from s1 have "0 \<le> b / ?sm" using b by simp
      then have le: "float_le (Finite 0) (round64 (b / ?sm))" by (rule round64_ge0)
      from that have "float_truediv (Finite b) (Finite ?sm) = Inr rm" by (simp only: Sm)
      with quotient_cases(1)[OF b s1] have "rm = round64 (b / ?sm)" by simp
      with le show ?thesis by simp
    qed
  qed
  from rate_defined[OF d m fm, of "Finite b"] obtain rm where
    rm: "rate (Finite b) (Finite d) m = Inr rm" by blast
  have "float_le rn rm"
  proof -
    from denominator_cases[OF pn0] show ?thesis
    proof
      assume "?Sn = PosInf"
      with r rn_eq have "rn = Finite 0" by (simp add: float_truediv_def)
      with low rm rm_eq show ?thesis by simp
    next
      assume a: "round64 ?pn = Finite (round_nearest ?pn) \<and> ?Sn = Finite ?sn \<and> 1 \<le> ?sn"
      then have Sn: "?Sn = Finite ?sn" and sn1: "1 \<le> ?sn" by blast+
      from r rn_eq have "float_truediv (Finite b) (Finite ?sn) = Inr rn" by (simp only: Sn)
      with quotient_cases(1)[OF b sn1] have rn: "rn = round64 (b / ?sn)" by simp
      from round64_nonneg[OF pn0] a have pnlt: "round_nearest ?pn < 2 ^ 1024" by auto
      have pq: "round_nearest ?pm \<le> round_nearest ?pn" using pm0 pmn by (rule round_nearest_mono)
      have q0: "0 \<le> round_nearest ?pm" using pm0 by (rule round_nearest_nonneg)
      have smn: "?sm \<le> ?sn" by (rule round_nearest_mono) (use pq q0 in simp_all)
      have s0: "0 \<le> 1 + round_nearest ?pn" using pq q0 by simp
      from round64_nonneg[OF s0] a have snlt: "?sn < 2 ^ 1024"
        by auto
      from round64_nonneg[OF pm0] pq pnlt have Pm: "round64 ?pm = Finite (round_nearest ?pm)"
        by auto
      have sm0: "0 \<le> 1 + round_nearest ?pm" using q0 by simp
      from round64_nonneg[OF sm0] smn snlt have "round64 (1 + round_nearest ?pm) = Finite ?sm"
        by auto
      with Pm have Sm: "?Sm = Finite ?sm" by simp
      from denominator_cases[OF pm0] Sm have sm1: "1 \<le> ?sm" by auto
      from rm rm_eq have "float_truediv (Finite b) (Finite ?sm) = Inr rm" by (simp only: Sm)
      with quotient_cases(1)[OF b sm1] have rmv: "rm = round64 (b / ?sm)" by simp
      have "b / ?sn \<le> b / ?sm" using b sm1 smn by (simp add: frac_le)
      moreover have "0 \<le> b / ?sn" using b a by simp
      ultimately have "float_le (round64 (b / ?sn)) (round64 (b / ?sm))" by (rule round64_mono[rotated])
      with rn rmv show ?thesis by simp
    qed
  qed
  with rm show ?thesis by blast
qed

text \<open>
  Two rates on concrete inputs. With the base \<open>1\<close> and the decay \<open>1\<close> the rate at
  iteration \<open>1\<close> is \<open>1/2\<close>. With the base \<open>1\<close> and the decay \<open>2\<^sup>-\<^sup>6\<^sup>0\<close> the sum
  \<open>1.0 + decay * 1\<close> rounds to \<open>1.0\<close>, and the rate at iteration \<open>1\<close> is the base.
\<close>

lemma rate_one_one: "rate (Finite 1) (Finite 1) 1 = Inr (Finite (1 / 2))"
  by (simp add: rate_def float_truediv_def round64_half)

lemma pow60: "(2::real) powr of_int (- 60) = 1 / 2 ^ 60"
  by (simp add: powr_minus_divide)

lemma round_nearest_small: "round_nearest (1 / 2 ^ 60) = 1 / 2 ^ 60"
  using round_nearest_pow2[of "- 60"] unfolding pow60 by simp

lemma round64_small: "round64 (1 / 2 ^ 60) = Finite (1 / 2 ^ 60)"
proof -
  have "(1::real) / 2 ^ 60 < 2 ^ 1024" by (simp add: field_simps)
  moreover have "\<not> (1::real) / 2 ^ 60 \<le> - (2 ^ 1024)" by simp
  ultimately show ?thesis unfolding round64_def Let_def round_nearest_small by simp
qed

lemma exponent_near_one: "exponent (1 + 1 / 2 ^ 60) = 0"
proof -
  have "\<lfloor>log 2 (1 + 1 / 2 ^ 60)\<rfloor> = 0"
    by (subst floor_log_eq_powr_iff) simp_all
  then show ?thesis by (simp add: exponent_def)
qed

lemma round_even_near: "round_even (2 ^ 52 + 1 / 2 ^ 8) = 2 ^ 52"
proof -
  have f: "\<lfloor>(2::real) ^ 52 + 1 / 2 ^ 8\<rfloor> = 2 ^ 52"
    by (rule floor_unique) simp_all
  show ?thesis unfolding round_even_def Let_def f by simp
qed

lemma round_nearest_near_one: "round_nearest (1 + 1 / 2 ^ 60) = 1"
proof -
  have u: "(2::real) powr of_int (0 - 52) = 1 / 2 ^ 52" by (simp add: powr_minus_divide)
  have q: "(1 + 1 / 2 ^ 60) / (1 / 2 ^ 52) = (2::real) ^ 52 + 1 / 2 ^ 8" by simp
  have nz: "(1::real) + 1 / 2 ^ 60 \<noteq> 0" by simp
  show ?thesis
    unfolding round_nearest_def Let_def exponent_near_one u q round_even_near
    using nz by simp
qed

lemma round64_near_one: "round64 (1 + 1 / 2 ^ 60) = Finite 1"
  using one_lt_big unfolding round64_def Let_def round_nearest_near_one by simp

lemma rate_rounds_to_base: "rate (Finite 1) (Finite (1 / 2 ^ 60)) 1 = Inr (Finite 1)"
proof -
  have "float_mul (Finite (1 / 2 ^ 60)) (Finite 1) = Finite (1 / 2 ^ 60)"
    using round64_small by simp
  moreover have "float_add (Finite 1) (Finite (1 / 2 ^ 60)) = Finite 1"
    using round64_near_one by simp
  ultimately show ?thesis by (simp add: rate_def float_truediv_def)
qed

lemma rate_zero_base: "rate (Finite 0) (Finite 1) 1 = Inr (Finite 0)"
  by (simp add: rate_def float_truediv_def)

subsection \<open>The parts of an iteration\<close>

lemma train_part_unfold:
  "train_part C a i s st =
     (case train_content_iter C (train_pos st) of Inl e \<Rightarrow> Inl e
      | Inr c \<Rightarrow>
        (case network C True (params st) c s of Inl e \<Rightarrow> Inl e
         | Inr (lc, ls) \<Rightarrow>
           Inr (content_weight a * lc + style_weight a * ls,
                st\<lparr>training := True,
                   train_pos := Suc (train_pos st),
                   grads := Some (gradient C (params st) c s (content_weight a) (style_weight a)),
                   params := fst (adam C (param_groups (optimizer st)) (params st)
                                   (Some (gradient C (params st) c s (content_weight a) (style_weight a)))
                                   (moments (optimizer st))),
                   optimizer := (optimizer st)\<lparr>moments :=
                                  snd (adam C (param_groups (optimizer st)) (params st)
                                   (Some (gradient C (params st) c s (content_weight a) (style_weight a)))
                                   (moments (optimizer st)))\<rparr>,
                   calls := calls st @ [NetTrain, Forward True c s, ZeroGrad,
                              Backward (content_weight a * lc + style_weight a * ls), OptimizerStep],
                   scalars := scalars st @
                      [(''train loss_content'', LossValue (content_weight a * lc), i + 1),
                       (''train loss_style'', LossValue (style_weight a * ls), i + 1)]\<rparr>)))"
  by (simp add: train_part_def Let_def split: sum.splits prod.splits)

lemma val_part_unfold:
  "val_part C a i s st =
     (case val_content_iter C (val_pos st) of Inl e \<Rightarrow> Inl e
      | Inr v \<Rightarrow>
        (case network C False (params st) v s of Inl e \<Rightarrow> Inl e
         | Inr (lc, ls) \<Rightarrow>
           Inr (content_weight a * lc + style_weight a * ls,
                st\<lparr>training := False,
                   val_pos := Suc (val_pos st),
                   calls := calls st @ [NetEval, Forward False v s],
                   scalars := scalars st @
                      [(''val loss_content'', LossValue (content_weight a * lc), i + 1),
                       (''val loss_style'', LossValue (style_weight a * ls), i + 1)]\<rparr>)))"
  by (simp add: val_part_def Let_def split: sum.splits prod.splits)

lemma adjust_Inr:
  assumes "adjust_learning_rate a opt i = Inr opt'"
  obtains r where
    "rate (lr a) (lr_decay a) i = Inr r"
    "param_groups opt' = map (\<lambda>g. g\<lparr>pg_lr := r\<rparr>) (param_groups opt)"
    "moments opt' = moments opt"
  using assms by (auto simp: adjust_learning_rate_def rate_def split: sum.splits)

lemma adjust_defined:
  assumes "rate (lr a) (lr_decay a) i = Inr r"
  shows "adjust_learning_rate a opt i =
           Inr (opt\<lparr>param_groups := map (\<lambda>g. g\<lparr>pg_lr := r\<rparr>) (param_groups opt)\<rparr>)"
  using assms by (auto simp: adjust_learning_rate_def rate_def split: sum.splits)

lemma adjust_Inl:
  "adjust_learning_rate a opt i = Inl e \<longleftrightarrow> rate (lr a) (lr_decay a) i = Inl e"
  by (auto simp: adjust_learning_rate_def rate_def split: sum.splits)

lemma adjust_ok:
  assumes "adjust_learning_rate a opt i = Inr opt'"
  shows "\<exists>r. rate (lr a) (lr_decay a) i = Inr r
     \<and> map pg_lr (param_groups opt') = replicate (length (param_groups opt)) r
     \<and> moments opt' = moments opt"
proof -
  from assms obtain r where r: "rate (lr a) (lr_decay a) i = Inr r"
    and g: "param_groups opt' = map (\<lambda>g. g\<lparr>pg_lr := r\<rparr>) (param_groups opt)"
    and m: "moments opt' = moments opt"
    by (rule adjust_Inr)
  from g have "map pg_lr (param_groups opt') = replicate (length (param_groups opt)) r"
    by (simp add: o_def map_replicate_const)
  with r m show ?thesis by blast
qed

lemma list_index_zero: "list_index xs 0 = Inr g \<Longrightarrow> xs \<noteq> [] \<and> g = hd xs"
  by (cases xs) (auto simp: list_index_def Let_def)

lemma iteration_Inr:
  assumes "iteration C a i st = Inr st'"
  obtains opt g0 s tloss st3 vloss st4 st5 where
    "adjust_learning_rate a (optimizer st) i = Inr opt"
    "list_index (param_groups opt) 0 = Inr g0"
    "style_iter C (style_pos st) = Inr s"
    "train_part C a i s (st\<lparr>optimizer := opt,
        scalars := scalars st @ [(''Learning rate'', FloatValue (pg_lr g0), i + 1)],
        style_pos := Suc (style_pos st)\<rparr>) = Inr (tloss, st3)"
    "val_part C a i s st3 = Inr (vloss, st4)"
    "print_part a i (pg_lr g0) tloss vloss st4 = Inr st5"
    "save_part a i st5 = Inr st'"
  using assms by (auto simp: iteration_def Let_def split: sum.splits prod.splits)

lemma print_part_Inr:
  "print_part a i cur tloss vloss st = Inr st' \<Longrightarrow>
     loss_print_interval a \<noteq> 0 \<and>
     st' = (if (i + 1) mod loss_print_interval a = 0
            then st\<lparr>stdout := stdout st @ [(cur, tloss, vloss)]\<rparr> else st)"
  by (auto simp: print_part_def py_mod_def split: if_splits)

lemma save_part_Inr:
  "save_part a i st = Inr st' \<Longrightarrow>
     save_model_interval a \<noteq> 0 \<and>
     st' = (if (i + 1) mod save_model_interval a = 0 \<or> i + 1 = max_iter a
            then st\<lparr>saved := saved st @ [(checkpoint_path a (i + 1), params st)]\<rparr> else st)"
  by (auto simp: save_part_def py_mod_def Let_def split: if_splits)

lemma train_part_Inr:
  assumes "train_part C a i s st = Inr (tloss, st')"
  obtains c lc ls where
    "train_content_iter C (train_pos st) = Inr c"
    "network C True (params st) c s = Inr (lc, ls)"
    "tloss = content_weight a * lc + style_weight a * ls"
    "st' = st\<lparr>training := True,
                   train_pos := Suc (train_pos st),
                   grads := Some (gradient C (params st) c s (content_weight a) (style_weight a)),
                   params := fst (adam C (param_groups (optimizer st)) (params st)
                                   (Some (gradient C (params st) c s (content_weight a) (style_weight a)))
                                   (moments (optimizer st))),
                   optimizer := (optimizer st)\<lparr>moments :=
                                  snd (adam C (param_groups (optimizer st)) (params st)
                                   (Some (gradient C (params st) c s (content_weight a) (style_weight a)))
                                   (moments (optimizer st)))\<rparr>,
                   calls := calls st @ [NetTrain, Forward True c s, ZeroGrad,
                              Backward (content_weight a * lc + style_weight a * ls), OptimizerStep],
                   scalars := scalars st @
                      [(''train loss_content'', LossValue (content_weight a * lc), i + 1),
                       (''train loss_style'', LossValue (style_weight a * ls), i + 1)]\<rparr>"
  using assms unfolding train_part_unfold by (auto split: sum.splits prod.splits)

lemma val_part_Inr:
  assumes "val_part C a i s st = Inr (vloss, st')"
  obtains v lc ls where
    "val_content_iter C (val_pos st) = Inr v"
    "network C False (params st) v s = Inr (lc, ls)"
    "vloss = content_weight a * lc + style_weight a * ls"
    "st' = st\<lparr>training := False,
                   val_pos := Suc (val_pos st),
                   calls := calls st @ [NetEval, Forward False v s],
                   scalars := scalars st @
                      [(''val loss_content'', LossValue (content_weight a * lc), i + 1),
                       (''val loss_style'', LossValue (style_weight a * ls), i + 1)]\<rparr>"
  using assms unfolding val_part_unfold by (auto split: sum.splits prod.splits)

lemma iteration_lr:
  assumes "iteration C a i st = Inr st'"
  shows "\<exists>r. rate (lr a) (lr_decay a) i = Inr r
     \<and> map pg_lr (param_groups (optimizer st')) =
           replicate (length (param_groups (optimizer st))) r"
proof -
  from assms obtain opt g0 s tloss st3 vloss st4 st5 where
    adj: "adjust_learning_rate a (optimizer st) i = Inr opt"
    and ix: "list_index (param_groups opt) 0 = Inr g0"
    and sty: "style_iter C (style_pos st) = Inr s"
    and tr: "train_part C a i s (st\<lparr>optimizer := opt,
        scalars := scalars st @ [(''Learning rate'', FloatValue (pg_lr g0), i + 1)],
        style_pos := Suc (style_pos st)\<rparr>) = Inr (tloss, st3)"
    and va: "val_part C a i s st3 = Inr (vloss, st4)"
    and pr: "print_part a i (pg_lr g0) tloss vloss st4 = Inr st5"
    and sa: "save_part a i st5 = Inr st'"
    by (rule iteration_Inr)
  from tr have 1: "param_groups (optimizer st3) = param_groups opt"
    by (rule train_part_Inr) simp
  from va have 2: "optimizer st4 = optimizer st3"
    by (rule val_part_Inr) simp
  from print_part_Inr[OF pr] have 3: "optimizer st5 = optimizer st4" by (simp split: if_splits)
  from save_part_Inr[OF sa] have 4: "optimizer st' = optimizer st5" by (simp split: if_splits)
  from adjust_ok[OF adj] obtain r where "rate (lr a) (lr_decay a) i = Inr r"
    "map pg_lr (param_groups opt) = replicate (length (param_groups (optimizer st))) r"
    by blast
  with 1 2 3 4 show ?thesis by simp
qed

subsection \<open>The loop\<close>

lemma iteration_effect:
  assumes "iteration C a i st = Inr st'"
  obtains s c v lc ls vc vs r where
    "style_iter C (style_pos st) = Inr s"
    "train_content_iter C (train_pos st) = Inr c"
    "val_content_iter C (val_pos st) = Inr v"
    "network C True (params st) c s = Inr (lc, ls)"
    "network C False (params st') v s = Inr (vc, vs)"
    "rate (lr a) (lr_decay a) i = Inr r"
    "calls st' = calls st @
       [NetTrain, Forward True c s, ZeroGrad,
        Backward (content_weight a * lc + style_weight a * ls), OptimizerStep,
        NetEval, Forward False v s]"
    "style_pos st' = Suc (style_pos st)"
    "train_pos st' = Suc (train_pos st)"
    "val_pos st' = Suc (val_pos st)"
    "grads st' = Some (gradient C (params st) c s (content_weight a) (style_weight a))"
    "(params st', moments (optimizer st')) =
       adam C (map (\<lambda>g. g\<lparr>pg_lr := r\<rparr>) (param_groups (optimizer st)))
         (params st) (Some (gradient C (params st) c s (content_weight a) (style_weight a)))
         (moments (optimizer st))"
    "scalars st' = scalars st @
       [(''Learning rate'', FloatValue r, i + 1),
        (''train loss_content'', LossValue (content_weight a * lc), i + 1),
        (''train loss_style'', LossValue (style_weight a * ls), i + 1),
        (''val loss_content'', LossValue (content_weight a * vc), i + 1),
        (''val loss_style'', LossValue (style_weight a * vs), i + 1)]"
    "loss_print_interval a \<noteq> 0"
    "stdout st' = stdout st @
       (if (i + 1) mod loss_print_interval a = 0
        then [(r, content_weight a * lc + style_weight a * ls,
               content_weight a * vc + style_weight a * vs)] else [])"
    "save_model_interval a \<noteq> 0"
    "saved st' = saved st @
       (if (i + 1) mod save_model_interval a = 0 \<or> i + 1 = max_iter a
        then [(checkpoint_path a (i + 1), params st')] else [])"
proof -
  from assms obtain opt g0 s tloss st3 vloss st4 st5 where
    adj: "adjust_learning_rate a (optimizer st) i = Inr opt"
    and ix: "list_index (param_groups opt) 0 = Inr g0"
    and sty: "style_iter C (style_pos st) = Inr s"
    and tr: "train_part C a i s (st\<lparr>optimizer := opt,
        scalars := scalars st @ [(''Learning rate'', FloatValue (pg_lr g0), i + 1)],
        style_pos := Suc (style_pos st)\<rparr>) = Inr (tloss, st3)"
    and va: "val_part C a i s st3 = Inr (vloss, st4)"
    and pr: "print_part a i (pg_lr g0) tloss vloss st4 = Inr st5"
    and sa: "save_part a i st5 = Inr st'"
    by (rule iteration_Inr)
  from adj obtain r where r: "rate (lr a) (lr_decay a) i = Inr r"
    and opt: "param_groups opt = map (\<lambda>g. g\<lparr>pg_lr := r\<rparr>) (param_groups (optimizer st))"
      "moments opt = moments (optimizer st)"
    by (rule adjust_Inr)
  from list_index_zero[OF ix] opt(1) have g0: "pg_lr g0 = r"
    by (cases "param_groups (optimizer st)") auto
  from tr obtain c lc ls where
    c: "train_content_iter C (train_pos st) = Inr c"
    and n: "network C True (params st) c s = Inr (lc, ls)"
    and tl: "tloss = content_weight a * lc + style_weight a * ls"
    and st3: "calls st3 = calls st @ [NetTrain, Forward True c s, ZeroGrad,
               Backward (content_weight a * lc + style_weight a * ls), OptimizerStep]"
      "style_pos st3 = Suc (style_pos st)" "train_pos st3 = Suc (train_pos st)"
      "val_pos st3 = val_pos st" "saved st3 = saved st"
      "grads st3 = Some (gradient C (params st) c s (content_weight a) (style_weight a))"
      "params st3 = fst (adam C (param_groups opt) (params st)
          (Some (gradient C (params st) c s (content_weight a) (style_weight a))) (moments opt))"
      "moments (optimizer st3) = snd (adam C (param_groups opt) (params st)
          (Some (gradient C (params st) c s (content_weight a) (style_weight a))) (moments opt))"
      "scalars st3 = scalars st @
         [(''Learning rate'', FloatValue (pg_lr g0), i + 1),
          (''train loss_content'', LossValue (content_weight a * lc), i + 1),
          (''train loss_style'', LossValue (style_weight a * ls), i + 1)]"
      "stdout st3 = stdout st"
    by (rule train_part_Inr) simp
  from va obtain v vc vs where
    v: "val_content_iter C (val_pos st3) = Inr v"
    and nv: "network C False (params st3) v s = Inr (vc, vs)"
    and vl: "vloss = content_weight a * vc + style_weight a * vs"
    and st4: "calls st4 = calls st3 @ [NetEval, Forward False v s]"
      "style_pos st4 = style_pos st3" "train_pos st4 = train_pos st3"
      "val_pos st4 = Suc (val_pos st3)" "saved st4 = saved st3"
      "grads st4 = grads st3" "params st4 = params st3" "optimizer st4 = optimizer st3"
      "scalars st4 = scalars st3 @
         [(''val loss_content'', LossValue (content_weight a * vc), i + 1),
          (''val loss_style'', LossValue (style_weight a * vs), i + 1)]"
      "stdout st4 = stdout st3"
    by (rule val_part_Inr) simp
  from print_part_Inr[OF pr] have st5:
    "calls st5 = calls st4" "style_pos st5 = style_pos st4" "train_pos st5 = train_pos st4"
    "val_pos st5 = val_pos st4" "saved st5 = saved st4"
    "grads st5 = grads st4" "params st5 = params st4" "optimizer st5 = optimizer st4"
    "scalars st5 = scalars st4"
    "loss_print_interval a \<noteq> 0"
    "stdout st5 = stdout st4 @
       (if (i + 1) mod loss_print_interval a = 0 then [(pg_lr g0, tloss, vloss)] else [])"
    by (simp_all split: if_splits)
  from save_part_Inr[OF sa] have st':
    "calls st' = calls st5" "style_pos st' = style_pos st5" "train_pos st' = train_pos st5"
    "val_pos st' = val_pos st5"
    "grads st' = grads st5" "params st' = params st5" "optimizer st' = optimizer st5"
    "save_model_interval a \<noteq> 0"
    "saved st' = saved st5 @
       (if (i + 1) mod save_model_interval a = 0 \<or> i + 1 = max_iter a
        then [(checkpoint_path a (i + 1), params st5)] else [])"
    "scalars st' = scalars st5" "stdout st' = stdout st5"
    by (simp_all split: if_splits)
  have p': "params st' = params st3" using st'(6) st5(7) st4(7) by simp
  show thesis
  proof (rule that[of s c v lc ls vc vs r])
    show "style_iter C (style_pos st) = Inr s" by (rule sty)
    show "train_content_iter C (train_pos st) = Inr c" by (rule c)
    show "val_content_iter C (val_pos st) = Inr v" using v st3 by simp
    show "network C True (params st) c s = Inr (lc, ls)" by (rule n)
    show "network C False (params st') v s = Inr (vc, vs)" using nv p' by simp
    show "rate (lr a) (lr_decay a) i = Inr r" by (rule r)
    show "calls st' = calls st @
       [NetTrain, Forward True c s, ZeroGrad,
        Backward (content_weight a * lc + style_weight a * ls), OptimizerStep,
        NetEval, Forward False v s]"
      using st'(1) st5(1) st4(1) st3(1) by simp
    show "style_pos st' = Suc (style_pos st)" using st'(2) st5(2) st4(2) st3(2) by simp
    show "train_pos st' = Suc (train_pos st)" using st'(3) st5(3) st4(3) st3(3) by simp
    show "val_pos st' = Suc (val_pos st)" using st'(4) st5(4) st4(4) st3(4) by simp
    show "grads st' = Some (gradient C (params st) c s (content_weight a) (style_weight a))"
      using st'(5) st5(6) st4(6) st3(6) by simp
    show "(params st', moments (optimizer st')) =
       adam C (map (\<lambda>g. g\<lparr>pg_lr := r\<rparr>) (param_groups (optimizer st)))
         (params st) (Some (gradient C (params st) c s (content_weight a) (style_weight a)))
         (moments (optimizer st))"
      using st'(6,7) st5(7,8) st4(7,8) st3(7,8) opt by simp
    show "scalars st' = scalars st @
       [(''Learning rate'', FloatValue r, i + 1),
        (''train loss_content'', LossValue (content_weight a * lc), i + 1),
        (''train loss_style'', LossValue (style_weight a * ls), i + 1),
        (''val loss_content'', LossValue (content_weight a * vc), i + 1),
        (''val loss_style'', LossValue (style_weight a * vs), i + 1)]"
      using st'(10) st5(9) st4(9) st3(9) g0 by simp
    show "loss_print_interval a \<noteq> 0" by (rule st5(10))
    show "stdout st' = stdout st @
       (if (i + 1) mod loss_print_interval a = 0
        then [(r, content_weight a * lc + style_weight a * ls,
               content_weight a * vc + style_weight a * vs)] else [])"
      using st'(11) st5(11) st4(10) st3(10) g0 tl vl by simp
    show "save_model_interval a \<noteq> 0" by (rule st'(8))
    show "saved st' = saved st @
       (if (i + 1) mod save_model_interval a = 0 \<or> i + 1 = max_iter a
        then [(checkpoint_path a (i + 1), params st')] else [])"
      using st'(9) st'(6) st5(5) st4(5) st3(5) by simp
  qed
qed

lemma loop_saved:
  "loop C a js st = Inr st' \<Longrightarrow>
     map fst (saved st') = map fst (saved st) @
       map (\<lambda>i. checkpoint_path a (i + 1))
         (filter (\<lambda>i. (i + 1) mod save_model_interval a = 0 \<or> i + 1 = max_iter a) js)"
proof (induction js arbitrary: st)
  case Nil
  then show ?case by simp
next
  case (Cons j js)
  from Cons.prems obtain st1 where 1: "iteration C a j st = Inr st1"
    and 2: "loop C a js st1 = Inr st'"
    by (auto split: sum.splits)
  from 1 have "saved st1 = saved st @
       (if (j + 1) mod save_model_interval a = 0 \<or> j + 1 = max_iter a
        then [(checkpoint_path a (j + 1), params st1)] else [])"
    by (rule iteration_effect)
  with Cons.IH[OF 2] show ?case by simp
qed

lemma py_range_set: "set (py_range n) = {i. 0 \<le> i \<and> i < n}"
  by (auto simp: py_range_def)

lemma py_range_distinct: "distinct (py_range n)"
  by (simp add: py_range_def)

lemma checkpoint_names_distinct:
  "distinct (map (\<lambda>i. checkpoint_path a (i + 1)) (filter P (py_range n)))"
proof -
  have "inj_on (\<lambda>i. checkpoint_path a (i + 1)) (set (filter P (py_range n)))"
  proof (rule inj_onI)
    fix x y
    assume "x \<in> set (filter P (py_range n))" "y \<in> set (filter P (py_range n))"
      and e: "checkpoint_path a (x + 1) = checkpoint_path a (y + 1)"
    then have "0 \<le> x + 1" "0 \<le> y + 1" by (simp_all add: py_range_set)
    from checkpoint_path_inj[OF this e] show "x = y" by simp
  qed
  moreover have "distinct (filter P (py_range n))" by (simp add: py_range_distinct)
  ultimately show ?thesis by (simp add: distinct_map)
qed

lemma py_range_3: "py_range 3 = [0, 1, 2]"
  by (simp add: py_range_def upto.simps)

text \<open>
  An iteration completes when the schedule yields a rate, the two intervals are not
  zero, the optimizer has a parameter group, the three iterators deliver a batch and the
  forward pass returns.
\<close>

lemma iteration_completes:
  assumes "rate (lr a) (lr_decay a) i = Inr r"
    and "param_groups (optimizer st) \<noteq> []"
    and "style_iter C (style_pos st) = Inr s"
    and "train_content_iter C (train_pos st) = Inr c"
    and "val_content_iter C (val_pos st) = Inr v"
    and "\<And>mode p x. \<exists>l. network C mode p x s = Inr l"
    and "loss_print_interval a \<noteq> 0"
    and "save_model_interval a \<noteq> 0"
  shows "\<exists>st'. iteration C a i st = Inr st'"
proof -
  let ?opt = "(optimizer st)\<lparr>param_groups :=
       map (\<lambda>g. g\<lparr>pg_lr := r\<rparr>) (param_groups (optimizer st))\<rparr>"
  from assms(1) have adj: "adjust_learning_rate a (optimizer st) i = Inr ?opt"
    by (rule adjust_defined)
  from assms(2) obtain g0 where ix: "list_index (param_groups ?opt) 0 = Inr g0"
    by (cases "param_groups (optimizer st)") (simp_all add: list_index_def Let_def)
  let ?st2 = "st\<lparr>optimizer := ?opt,
        scalars := scalars st @ [(''Learning rate'', FloatValue (pg_lr g0), i + 1)],
        style_pos := Suc (style_pos st)\<rparr>"
  from assms(6) obtain l1 where n1: "network C True (params ?st2) c s = Inr l1" by blast
  with assms(4) obtain tloss st3 where tr: "train_part C a i s ?st2 = Inr (tloss, st3)"
    and v3: "val_pos st3 = val_pos st"
    by (cases l1) (simp add: train_part_unfold)
  from assms(6) obtain l2 where n2: "network C False (params st3) v s = Inr l2" by blast
  with assms(5) v3 obtain vloss st4 where va: "val_part C a i s st3 = Inr (vloss, st4)"
    by (cases l2) (simp add: val_part_unfold)
  from assms(7) obtain st5 where pr: "print_part a i (pg_lr g0) tloss vloss st4 = Inr st5"
    by (cases "(i + 1) mod loss_print_interval a = 0") (simp_all add: print_part_def py_mod_def)
  from assms(8) obtain st' where sa: "save_part a i st5 = Inr st'"
    by (cases "(i + 1) mod save_model_interval a = 0 \<or> i + 1 = max_iter a")
      (simp_all add: save_part_def py_mod_def Let_def)
  from adj ix assms(3) tr va pr sa have "iteration C a i st = Inr st'"
    by (simp add: iteration_def Let_def)
  then show ?thesis ..
qed

text \<open>
  A run completes when this holds at every iteration: the iterators and the forward
  pass always deliver.
\<close>

lemma loop_completes:
  assumes "\<And>i. i \<in> set js \<Longrightarrow> \<exists>r. rate (lr a) (lr_decay a) i = Inr r"
    and "\<And>k. \<exists>b. style_iter C k = Inr b"
    and "\<And>k. \<exists>b. train_content_iter C k = Inr b"
    and "\<And>k. \<exists>b. val_content_iter C k = Inr b"
    and "\<And>mode p x s. \<exists>l. network C mode p x s = Inr l"
    and "loss_print_interval a \<noteq> 0"
    and "save_model_interval a \<noteq> 0"
    and "param_groups (optimizer st) \<noteq> []"
  shows "\<exists>st'. loop C a js st = Inr st'"
  using assms(1,8)
proof (induction js arbitrary: st)
  case Nil
  then show ?case by simp
next
  case (Cons j js)
  from Cons.prems(1)[of j] obtain r where r: "rate (lr a) (lr_decay a) j = Inr r" by auto
  from assms(2) obtain s where s: "style_iter C (style_pos st) = Inr s" by blast
  from assms(3) obtain c where c: "train_content_iter C (train_pos st) = Inr c" by blast
  from assms(4) obtain v where v: "val_content_iter C (val_pos st) = Inr v" by blast
  from iteration_completes[OF r Cons.prems(2) s c v assms(5) assms(6) assms(7)]
  obtain st1 where 1: "iteration C a j st = Inr st1" by blast
  from iteration_lr[OF 1] Cons.prems(2) have "param_groups (optimizer st1) \<noteq> []"
    by (metis length_map length_replicate length_0_conv)
  with Cons.IH[of st1] Cons.prems(1) obtain st' where "loop C a js st1 = Inr st'"
    by auto
  with 1 show ?case by simp
qed

lemma example_rate: "0 \<le> i \<Longrightarrow> i \<le> 2 \<Longrightarrow> \<exists>r. rate (lr example_args) (lr_decay example_args) i = Inr r"
proof -
  assume i: "0 \<le> i" "i \<le> 2"
  have "(2::int) \<le> 2 ^ 1023" by (rule self_le_power) simp_all
  with i have "i \<le> 2 ^ 1023" by simp
  from float_of_int_defined[OF i(1) this] rate_defined[of "1 / 2 ^ 17" i _ "Finite (1 / 2 ^ 13)"] i(1)
  show ?thesis by (simp add: example_args_def)
qed

lemma example_iteration_any:
  assumes "C = example_collab \<or> C = probe_collab"
  shows "\<exists>st'. iteration C example_args 0 example_state = Inr st'"
proof -
  from example_rate[of 0] obtain r where
    r: "rate (lr example_args) (lr_decay example_args) 0 = Inr r" by auto
  show ?thesis
  proof (rule iteration_completes[OF r])
    show "param_groups (optimizer example_state) \<noteq> []"
      by (simp add: example_state_def initial_state_def)
    show "style_iter C (style_pos example_state) = Inr 100"
      using assms by (auto simp: example_collab_def probe_collab_def example_state_def initial_state_def)
    show "train_content_iter C (train_pos example_state) = Inr 0"
      using assms by (auto simp: example_collab_def probe_collab_def example_state_def initial_state_def)
    show "val_content_iter C (val_pos example_state) = Inr 200"
      using assms by (auto simp: example_collab_def probe_collab_def example_state_def initial_state_def)
    show "\<exists>l. network C mode p x 100 = Inr l" for mode p x
      using assms by (auto simp: example_collab_def probe_collab_def)
    show "loss_print_interval example_args \<noteq> 0" by (simp add: example_args_def)
    show "save_model_interval example_args \<noteq> 0" by (simp add: example_args_def)
  qed
qed

lemma example_iteration:
  "\<exists>st'. iteration example_collab example_args 0 example_state = Inr st'"
  by (rule example_iteration_any) simp

lemma probe_iteration:
  "\<exists>st'. iteration probe_collab example_args 0 example_state = Inr st'"
  by (rule example_iteration_any) simp

lemma ex_run: "\<exists>st'. train example_collab example_args example_state = Inr st'"
proof -
  have m: "max_iter example_args = 3" by (simp add: example_args_def)
  show ?thesis unfolding train_def m py_range_3
  proof (rule loop_completes)
    show "\<exists>r. rate (lr example_args) (lr_decay example_args) i = Inr r"
      if "i \<in> set [0, 1, 2]" for i
      using that example_rate[of i] by auto
    show "\<exists>b. style_iter example_collab k = Inr b" for k by (simp add: example_collab_def)
    show "\<exists>b. train_content_iter example_collab k = Inr b" for k by (simp add: example_collab_def)
    show "\<exists>b. val_content_iter example_collab k = Inr b" for k by (simp add: example_collab_def)
    show "\<exists>l. network example_collab mode p x s = Inr l" for mode p x s
      by (simp add: example_collab_def)
    show "loss_print_interval example_args \<noteq> 0" by (simp add: example_args_def)
    show "save_model_interval example_args \<noteq> 0" by (simp add: example_args_def)
    show "param_groups (optimizer example_state) \<noteq> []"
      by (simp add: example_state_def initial_state_def)
  qed
qed

lemma ex_names: "map (\<lambda>i. checkpoint_path example_args (i + 1))
         (filter (\<lambda>i. (i + 1) mod save_model_interval example_args = 0 \<or> i + 1 = max_iter example_args) (py_range 3))
  = [''./experiments/decoder_iter_2.pth.tar'', ''./experiments/decoder_iter_3.pth.tar'']"
  unfolding py_range_3
  by (simp add: checkpoint_path_def checkpoint_name_def child_def str_int_def str_nat.simps digit_char_def example_args_def)

subsection \<open>Learning-rate schedule\<close>

text \<open>
  C2, amended. The rate that \<^verbatim>\<open>adjust_learning_rate\<close> stores in every parameter
  group, and that is in force after iteration \<open>i\<close> of the loop, is the value of
  \<open>rate base decay i\<close>, the float expression \<open>base / (1.0 + decay * i)\<close> of the configured
  base rate, the decay and the iteration index alone, whatever rate was stored before;
  it raises exactly when that expression raises.
  For a base rate \<open>b\<close> that is a binary64 value and a finite decay it equals the base
  rate at iteration \<open>0\<close>; it is constant for the decay \<open>0\<close>; and for a base rate and
  a decay that are not negative it does not increase from an iteration \<open>m \<ge> 0\<close> to a
  later one. It need not decrease: see the inputs below.
\<close>

theorem learning_rate_schedule:
  "(adjust_learning_rate a opt k = Inr opt' \<longrightarrow>
      (\<exists>r. rate (lr a) (lr_decay a) k = Inr r
         \<and> map pg_lr (param_groups opt') = replicate (length (param_groups opt)) r))
   \<and> (adjust_learning_rate a opt k = Inl e \<longleftrightarrow> rate (lr a) (lr_decay a) k = Inl e)
   \<and> (iteration C a i st = Inr st' \<longrightarrow>
      (\<exists>r. rate (lr a) (lr_decay a) i = Inr r
         \<and> map pg_lr (param_groups (optimizer st')) =
             replicate (length (param_groups (optimizer st))) r))
   \<and> (round64 b = Finite b \<longrightarrow> rate (Finite b) (Finite d) 0 = Inr (Finite b))
   \<and> (round64 b = Finite b \<and> float_of_int n = Inr fn \<longrightarrow>
        rate (Finite b) (Finite 0) n = Inr (Finite b))
   \<and> (0 \<le> b \<and> 0 \<le> d \<and> 0 \<le> m \<and> m \<le> n \<and> rate (Finite b) (Finite d) n = Inr rn \<longrightarrow>
        (\<exists>rm. rate (Finite b) (Finite d) m = Inr rm \<and> float_le rn rm))"
proof (intro conjI impI)
  assume "adjust_learning_rate a opt k = Inr opt'"
  from adjust_ok[OF this]
  show "\<exists>r. rate (lr a) (lr_decay a) k = Inr r
         \<and> map pg_lr (param_groups opt') = replicate (length (param_groups opt)) r"
    by blast
next
  show "adjust_learning_rate a opt k = Inl e \<longleftrightarrow> rate (lr a) (lr_decay a) k = Inl e"
    by (rule adjust_Inl)
next
  assume "iteration C a i st = Inr st'"
  then show "\<exists>r. rate (lr a) (lr_decay a) i = Inr r
         \<and> map pg_lr (param_groups (optimizer st')) =
             replicate (length (param_groups (optimizer st))) r"
    by (rule iteration_lr)
next
  assume "round64 b = Finite b"
  then show "rate (Finite b) (Finite d) 0 = Inr (Finite b)" by (rule rate_at_zero)
next
  assume "round64 b = Finite b \<and> float_of_int n = Inr fn"
  then show "rate (Finite b) (Finite 0) n = Inr (Finite b)" by (simp add: rate_decay_zero)
next
  assume "0 \<le> b \<and> 0 \<le> d \<and> 0 \<le> m \<and> m \<le> n \<and> rate (Finite b) (Finite d) n = Inr rn"
  then show "\<exists>rm. rate (Finite b) (Finite d) m = Inr rm \<and> float_le rn rm"
    using rate_mono[of b d m n rn] by blast
qed

theorem learning_rate_schedule_witness:
  "(\<exists>opt'. adjust_learning_rate (example_args\<lparr>lr := Finite 1, lr_decay := Finite 1\<rparr>)
              (optimizer example_state) 1 = Inr opt'
       \<and> map pg_lr (param_groups opt') = [Finite (1 / 2)])
   \<and> (\<exists>st'. iteration example_collab example_args 0
              (example_state\<lparr>optimizer := \<lparr>param_groups = [\<lparr>pg_lr = Finite 7\<rparr>], moments = 0\<rparr>\<rparr>)
            = Inr st'
       \<and> map pg_lr (param_groups (optimizer st')) = [Finite (1 / 2 ^ 13)])
   \<and> round64 1 = Finite 1
   \<and> rate (Finite 1) (Finite 1) 0 = Inr (Finite 1)
   \<and> float_of_int 1 = Inr (Finite 1)
   \<and> rate (Finite 1) (Finite 0) 1 = Inr (Finite 1)
   \<and> rate (Finite 1) (Finite 1) 1 = Inr (Finite (1 / 2))
   \<and> float_le (Finite (1 / 2)) (Finite 1)"
proof -
  let ?a = "example_args\<lparr>lr := Finite 1, lr_decay := Finite 1\<rparr>"
  let ?st = "example_state\<lparr>optimizer := \<lparr>param_groups = [\<lparr>pg_lr = Finite 7\<rparr>], moments = 0\<rparr>\<rparr>"
  have l: "lr ?a = Finite 1" "lr_decay ?a = Finite 1"
    "length (param_groups (optimizer example_state)) = 1"
    "length (param_groups (optimizer ?st)) = 1"
    by (simp_all add: example_state_def initial_state_def)
  obtain opt' where a: "adjust_learning_rate ?a (optimizer example_state) 1 = Inr opt'"
    using adjust_defined[of ?a 1 "Finite (1 / 2)" "optimizer example_state"] rate_one_one l
    by simp
  have r0: "rate (lr example_args) (lr_decay example_args) 0 = Inr (Finite (1 / 2 ^ 13))"
    using rate_at_zero[OF example_base] by (simp add: example_args_def)
  have "\<exists>st'. iteration example_collab example_args 0 ?st = Inr st'"
  proof (rule iteration_completes[OF r0])
    show "param_groups (optimizer ?st) \<noteq> []" by simp
    show "style_iter example_collab (style_pos ?st) = Inr 100"
      by (simp add: example_collab_def example_state_def initial_state_def)
    show "train_content_iter example_collab (train_pos ?st) = Inr 0"
      by (simp add: example_collab_def example_state_def initial_state_def)
    show "val_content_iter example_collab (val_pos ?st) = Inr 200"
      by (simp add: example_collab_def example_state_def initial_state_def)
    show "\<exists>l. network example_collab mode p x 100 = Inr l" for mode p x
      by (simp add: example_collab_def)
    show "loss_print_interval example_args \<noteq> 0" by (simp add: example_args_def)
    show "save_model_interval example_args \<noteq> 0" by (simp add: example_args_def)
  qed
  then obtain st' where b: "iteration example_collab example_args 0 ?st = Inr st'" by blast
  note T = learning_rate_schedule[where a = ?a and opt = "optimizer example_state"
      and k = 1 and opt' = opt' and C = example_collab and i = 0 and st = example_state
      and st' = example_state and b = 1 and d = 1 and m = 0 and n = 1
      and fn = "Finite 1" and rn = "Finite (1 / 2)" and e = ZeroDivisionError]
  note U = learning_rate_schedule[where a = example_args and opt = "optimizer example_state"
      and k = 1 and opt' = opt' and C = example_collab and i = 0 and st = ?st
      and st' = st' and b = 1 and d = 1 and m = 0 and n = 1
      and fn = "Finite 1" and rn = "Finite (1 / 2)" and e = ZeroDivisionError]
  from T a l rate_one_one have 1: "map pg_lr (param_groups opt') = [Finite (1 / 2)]"
    by simp
  from T have 2: "rate (Finite 1) (Finite 1) 0 = Inr (Finite 1)" by simp
  from T have 3: "rate (Finite 1) (Finite 0) 1 = Inr (Finite 1)" by simp
  from U b r0 l(4) have 4: "map pg_lr (param_groups (optimizer st')) = [Finite (1 / 2 ^ 13)]"
    by simp
  have A: "\<exists>opt'. adjust_learning_rate ?a (optimizer example_state) 1 = Inr opt'
       \<and> map pg_lr (param_groups opt') = [Finite (1 / 2)]"
    by (rule exI[of _ opt']) (simp only: a 1 simp_thms)
  have B: "\<exists>st'. iteration example_collab example_args 0 ?st = Inr st'
       \<and> map pg_lr (param_groups (optimizer st')) = [Finite (1 / 2 ^ 13)]"
    by (rule exI[of _ st']) (simp only: b 4 simp_thms)
  have 5: "float_le (Finite (1 / 2)) (Finite 1)" by simp
  have 6: "round64 1 = Finite 1" "float_of_int 1 = Inr (Finite 1)" by simp_all
  show ?thesis by (intro conjI A B 6 2 3 rate_one_one 5)
qed

text \<open>
  The claim as stated fails for a positive decay. With the base rate \<open>1\<close> and the decay
  \<open>2\<^sup>-\<^sup>6\<^sup>0\<close>, both binary64 values, the rate is \<open>1\<close> at the iterations \<open>0\<close> and \<open>1\<close>, because
  \<open>1.0 + 2\<^sup>-\<^sup>6\<^sup>0\<close> rounds to \<open>1.0\<close>; with the base rate \<open>0\<close> and the decay \<open>1\<close> it is \<open>0\<close>
  at both.
\<close>

theorem learning_rate_schedule_counterexample:
  "round64 1 = Finite 1 \<and> round64 (1 / 2 ^ 60) = Finite (1 / 2 ^ 60) \<and> (0::real) < 1 / 2 ^ 60
   \<and> rate (Finite 1) (Finite (1 / 2 ^ 60)) 0 = Inr (Finite 1)
   \<and> rate (Finite 1) (Finite (1 / 2 ^ 60)) 1 = Inr (Finite 1)
   \<and> adjust_learning_rate (example_args\<lparr>lr := Finite 1, lr_decay := Finite (1 / 2 ^ 60)\<rparr>)
        (optimizer example_state) 0
       = Inr (optimizer example_state\<lparr>param_groups := [\<lparr>pg_lr = Finite 1\<rparr>]\<rparr>)
   \<and> adjust_learning_rate (example_args\<lparr>lr := Finite 1, lr_decay := Finite (1 / 2 ^ 60)\<rparr>)
        (optimizer example_state) 1
       = Inr (optimizer example_state\<lparr>param_groups := [\<lparr>pg_lr = Finite 1\<rparr>]\<rparr>)
   \<and> rate (Finite 0) (Finite 1) 0 = Inr (Finite 0)
   \<and> rate (Finite 0) (Finite 1) 1 = Inr (Finite 0)"
proof -
  let ?a = "example_args\<lparr>lr := Finite 1, lr_decay := Finite (1 / 2 ^ 60)\<rparr>"
  have 0: "rate (Finite 1) (Finite (1 / 2 ^ 60)) 0 = Inr (Finite 1)"
    by (rule rate_at_zero) simp
  have l: "rate (lr ?a) (lr_decay ?a) 0 = Inr (Finite 1)"
    "rate (lr ?a) (lr_decay ?a) 1 = Inr (Finite 1)"
    using 0 rate_rounds_to_base by simp_all
  have g: "param_groups (optimizer example_state) = [\<lparr>pg_lr = Finite (1 / 2 ^ 13)\<rparr>]"
    by (simp add: example_state_def initial_state_def example_args_def)
  have A: "adjust_learning_rate ?a (optimizer example_state) 0
       = Inr (optimizer example_state\<lparr>param_groups := [\<lparr>pg_lr = Finite 1\<rparr>]\<rparr>)"
    unfolding adjust_defined[OF l(1)] g by simp
  have B: "adjust_learning_rate ?a (optimizer example_state) 1
       = Inr (optimizer example_state\<lparr>param_groups := [\<lparr>pg_lr = Finite 1\<rparr>]\<rparr>)"
    unfolding adjust_defined[OF l(2)] g by simp
  have Z: "rate (Finite 0) (Finite 1) 0 = Inr (Finite 0)"
    by (rule rate_at_zero) simp
  have p: "(0::real) < 1 / 2 ^ 60" by simp
  have r1: "round64 1 = Finite 1" by simp
  show ?thesis
    by (intro conjI r1 round64_small p 0 rate_rounds_to_base A B Z rate_zero_base)
qed

subsection \<open>Checkpoints, batches and the training step\<close>

text \<open>
  C1. An iteration that completes writes a checkpoint at its end if and only if
  \<open>(i + 1) mod save_model_interval = 0\<close> or \<open>i + 1 = max_iter\<close>. The file is named
  \<^verbatim>\<open>decoder_iter_<i+1>.pth.tar\<close> in the save directory. Over a run, the names written are
  those of the iterations \<open>i\<close> of \<open>range(max_iter)\<close> that satisfy the condition, in order,
  and they are pairwise different, so the run never overwrites a checkpoint it wrote.
\<close>

theorem checkpoints_written:
  "(iteration C a i st = Inr st1 \<longrightarrow>
      saved st1 = saved st @
        (if (i + 1) mod save_model_interval a = 0 \<or> i + 1 = max_iter a
         then [(checkpoint_path a (i + 1), params st1)] else []))
   \<and> (train C a st = Inr st' \<longrightarrow>
      map fst (saved st') = map fst (saved st) @
        map (\<lambda>i. checkpoint_path a (i + 1))
          (filter (\<lambda>i. (i + 1) mod save_model_interval a = 0 \<or> i + 1 = max_iter a)
             (py_range (max_iter a))))
   \<and> distinct (map (\<lambda>i. checkpoint_path a (i + 1))
          (filter (\<lambda>i. (i + 1) mod save_model_interval a = 0 \<or> i + 1 = max_iter a)
             (py_range (max_iter a))))
   \<and> checkpoint_path a (i + 1) =
        save_dir a @ ''/'' @ ''decoder_iter_'' @ str_int (i + 1) @ ''.pth.tar''"
proof (intro conjI impI)
  assume "iteration C a i st = Inr st1"
  then show "saved st1 = saved st @
        (if (i + 1) mod save_model_interval a = 0 \<or> i + 1 = max_iter a
         then [(checkpoint_path a (i + 1), params st1)] else [])"
    by (rule iteration_effect)
next
  assume "train C a st = Inr st'"
  then show "map fst (saved st') = map fst (saved st) @
        map (\<lambda>i. checkpoint_path a (i + 1))
          (filter (\<lambda>i. (i + 1) mod save_model_interval a = 0 \<or> i + 1 = max_iter a)
             (py_range (max_iter a)))"
    unfolding train_def by (rule loop_saved)
next
  show "distinct (map (\<lambda>i. checkpoint_path a (i + 1))
          (filter (\<lambda>i. (i + 1) mod save_model_interval a = 0 \<or> i + 1 = max_iter a)
             (py_range (max_iter a))))"
    by (rule checkpoint_names_distinct)
next
  show "checkpoint_path a (i + 1) =
        save_dir a @ ''/'' @ ''decoder_iter_'' @ str_int (i + 1) @ ''.pth.tar''"
    by (simp add: checkpoint_path_def checkpoint_name_def child_def)
qed

theorem checkpoints_written_witness:
  "(\<exists>st1. iteration example_collab example_args 0 example_state = Inr st1 \<and> saved st1 = [])
   \<and> (\<exists>st'. train example_collab example_args example_state = Inr st' \<and>
         map fst (saved st') =
           [''./experiments/decoder_iter_2.pth.tar'', ''./experiments/decoder_iter_3.pth.tar''])"
proof -
  obtain st1 where a: "iteration example_collab example_args 0 example_state = Inr st1"
    using example_iteration by blast
  obtain st' where b: "train example_collab example_args example_state = Inr st'"
    using ex_run by blast
  note T = checkpoints_written[where C = example_collab and a = example_args and i = 0
      and st = example_state and ?st1.0 = st1 and st' = st']
  have m: "max_iter example_args = 3" "save_model_interval example_args = 2"
    "saved example_state = []"
    by (simp_all add: example_args_def example_state_def initial_state_def)
  from T a m have 1: "saved st1 = []" by simp
  from T b have "map fst (saved st') = map fst (saved example_state) @
        map (\<lambda>i. checkpoint_path example_args (i + 1))
          (filter (\<lambda>i. (i + 1) mod save_model_interval example_args = 0 \<or> i + 1 = max_iter example_args)
             (py_range (max_iter example_args)))"
    by blast
  then have 2: "map fst (saved st') =
      [''./experiments/decoder_iter_2.pth.tar'', ''./experiments/decoder_iter_3.pth.tar'']"
    using ex_names m by simp
  have A: "\<exists>st1. iteration example_collab example_args 0 example_state = Inr st1 \<and> saved st1 = []"
    by (rule exI[of _ st1]) (simp add: a 1)
  have B: "\<exists>st'. train example_collab example_args example_state = Inr st' \<and>
         map fst (saved st') =
           [''./experiments/decoder_iter_2.pth.tar'', ''./experiments/decoder_iter_3.pth.tar'']"
    by (rule exI[of _ st']) (simp only: b 2 simp_thms)
  from A B show ?thesis by (rule conjI)
qed

text \<open>
  C3. In an iteration that completes, one batch is pulled from the style stream, and
  both forward passes are evaluated on that batch. The training losses that the
  iteration logs are the weighted results of the network on the train-content batch and
  the style batch; the validation losses it logs are the weighted results of the network,
  at the parameters after the optimizer step, on the validation-content batch and the
  same style batch. Each of the three streams advances by one batch.
\<close>

theorem style_batch_shared:
  assumes "iteration C a i st = Inr st'"
  shows "\<exists>s c v lc ls vc vs r.
           style_iter C (style_pos st) = Inr s
         \<and> style_pos st' = Suc (style_pos st)
         \<and> train_content_iter C (train_pos st) = Inr c
         \<and> train_pos st' = Suc (train_pos st)
         \<and> val_content_iter C (val_pos st) = Inr v
         \<and> val_pos st' = Suc (val_pos st)
         \<and> network C True (params st) c s = Inr (lc, ls)
         \<and> network C False (params st') v s = Inr (vc, vs)
         \<and> scalars st' = scalars st @
             [(''Learning rate'', FloatValue r, i + 1),
              (''train loss_content'', LossValue (content_weight a * lc), i + 1),
              (''train loss_style'', LossValue (style_weight a * ls), i + 1),
              (''val loss_content'', LossValue (content_weight a * vc), i + 1),
              (''val loss_style'', LossValue (style_weight a * vs), i + 1)]
         \<and> stdout st' = stdout st @
             (if (i + 1) mod loss_print_interval a = 0
              then [(r, content_weight a * lc + style_weight a * ls,
                     content_weight a * vc + style_weight a * vs)] else [])
         \<and> calls st' = calls st @
             [NetTrain, Forward True c s, ZeroGrad,
              Backward (content_weight a * lc + style_weight a * ls), OptimizerStep,
              NetEval, Forward False v s]"
proof -
  from assms obtain s c v lc ls vc vs r where
    "style_iter C (style_pos st) = Inr s"
    "train_content_iter C (train_pos st) = Inr c"
    "val_content_iter C (val_pos st) = Inr v"
    "network C True (params st) c s = Inr (lc, ls)"
    "network C False (params st') v s = Inr (vc, vs)"
    "calls st' = calls st @
       [NetTrain, Forward True c s, ZeroGrad,
        Backward (content_weight a * lc + style_weight a * ls), OptimizerStep,
        NetEval, Forward False v s]"
    "style_pos st' = Suc (style_pos st)"
    "train_pos st' = Suc (train_pos st)"
    "val_pos st' = Suc (val_pos st)"
    "scalars st' = scalars st @
       [(''Learning rate'', FloatValue r, i + 1),
        (''train loss_content'', LossValue (content_weight a * lc), i + 1),
        (''train loss_style'', LossValue (style_weight a * ls), i + 1),
        (''val loss_content'', LossValue (content_weight a * vc), i + 1),
        (''val loss_style'', LossValue (style_weight a * vs), i + 1)]"
    "stdout st' = stdout st @
       (if (i + 1) mod loss_print_interval a = 0
        then [(r, content_weight a * lc + style_weight a * ls,
               content_weight a * vc + style_weight a * vs)] else [])"
    by (rule iteration_effect) blast
  then show ?thesis by blast
qed

theorem style_batch_shared_witness:
  "\<exists>st'. iteration probe_collab example_args 0 example_state = Inr st'
     \<and> style_pos st' = 1
     \<and> tl (scalars st') =
         [(''train loss_content'', LossValue 0, 1),
          (''train loss_style'', LossValue 100, 1),
          (''val loss_content'', LossValue 200, 1),
          (''val loss_style'', LossValue 100, 1)]
     \<and> map (\<lambda>(r, tloss, vloss). (tloss, vloss)) (stdout st') = [(100, 300)]"
proof -
  obtain st' where a: "iteration probe_collab example_args 0 example_state = Inr st'"
    using probe_iteration by blast
  from style_batch_shared[OF a] obtain s c v lc ls vc vs r where
    s: "style_iter probe_collab (style_pos example_state) = Inr s"
    and p: "style_pos st' = Suc (style_pos example_state)"
    and c: "train_content_iter probe_collab (train_pos example_state) = Inr c"
    and v: "val_content_iter probe_collab (val_pos example_state) = Inr v"
    and n: "network probe_collab True (params example_state) c s = Inr (lc, ls)"
    and nv: "network probe_collab False (params st') v s = Inr (vc, vs)"
    and sc: "scalars st' = scalars example_state @
             [(''Learning rate'', FloatValue r, 0 + 1),
              (''train loss_content'', LossValue (content_weight example_args * lc), 0 + 1),
              (''train loss_style'', LossValue (style_weight example_args * ls), 0 + 1),
              (''val loss_content'', LossValue (content_weight example_args * vc), 0 + 1),
              (''val loss_style'', LossValue (style_weight example_args * vs), 0 + 1)]"
    and so: "stdout st' = stdout example_state @
             (if (0 + 1) mod loss_print_interval example_args = 0
              then [(r, content_weight example_args * lc + style_weight example_args * ls,
                     content_weight example_args * vc + style_weight example_args * vs)] else [])"
    by blast
  from s c v have e: "s = 100" "c = 0" "v = 200"
    by (simp_all add: probe_collab_def example_state_def initial_state_def)
  from n nv e have l: "lc = 0" "ls = 100" "vc = 200" "vs = 100"
    by (simp_all add: probe_collab_def)
  have w: "content_weight example_args = 1" "style_weight example_args = 1"
    "loss_print_interval example_args = 1"
    "scalars example_state = []" "stdout example_state = []" "style_pos example_state = 0"
    by (simp_all add: example_args_def example_state_def initial_state_def)
  from p w have 1: "style_pos st' = 1" by simp
  from sc l w have 2: "tl (scalars st') =
         [(''train loss_content'', LossValue 0, 1),
          (''train loss_style'', LossValue 100, 1),
          (''val loss_content'', LossValue 200, 1),
          (''val loss_style'', LossValue 100, 1)]"
    by simp
  from so l w have 3: "map (\<lambda>(r, tloss, vloss). (tloss, vloss)) (stdout st') = [(100, 300)]"
    by simp
  show ?thesis by (rule exI[of _ st']) (simp only: a 1 2 3 simp_thms)
qed

text \<open>
  C4. In an iteration that completes, the training part calls the forward pass on the
  train-content batch and the style batch, clears the gradients, backpropagates the
  total \<open>content_weight * content_loss + style_weight * style_loss\<close> of the two losses
  that forward pass returned, and applies one optimizer step: the gradients after the
  iteration are those of this total alone, the parameters and the moments are the result
  of one Adam update at the scheduled rate, and the calls of the iteration hold exactly
  one optimizer step.
\<close>

theorem training_step:
  assumes "iteration C a i st = Inr st'"
  shows "\<exists>s c v lc ls r.
           style_iter C (style_pos st) = Inr s
         \<and> train_content_iter C (train_pos st) = Inr c
         \<and> network C True (params st) c s = Inr (lc, ls)
         \<and> calls st' = calls st @
             [NetTrain, Forward True c s, ZeroGrad,
              Backward (content_weight a * lc + style_weight a * ls), OptimizerStep,
              NetEval, Forward False v s]
         \<and> grads st' = Some (gradient C (params st) c s (content_weight a) (style_weight a))
         \<and> rate (lr a) (lr_decay a) i = Inr r
         \<and> (params st', moments (optimizer st')) =
             adam C (map (\<lambda>g. g\<lparr>pg_lr := r\<rparr>) (param_groups (optimizer st)))
               (params st)
               (Some (gradient C (params st) c s (content_weight a) (style_weight a)))
               (moments (optimizer st))
         \<and> count_list (calls st') OptimizerStep = count_list (calls st) OptimizerStep + 1"
proof -
  from assms obtain s c v lc ls r where
    1: "style_iter C (style_pos st) = Inr s"
    "train_content_iter C (train_pos st) = Inr c"
    "network C True (params st) c s = Inr (lc, ls)"
    and 2: "calls st' = calls st @
             [NetTrain, Forward True c s, ZeroGrad,
              Backward (content_weight a * lc + style_weight a * ls), OptimizerStep,
              NetEval, Forward False v s]"
    and 3: "grads st' = Some (gradient C (params st) c s (content_weight a) (style_weight a))"
    "rate (lr a) (lr_decay a) i = Inr r"
    "(params st', moments (optimizer st')) =
             adam C (map (\<lambda>g. g\<lparr>pg_lr := r\<rparr>) (param_groups (optimizer st)))
               (params st)
               (Some (gradient C (params st) c s (content_weight a) (style_weight a)))
               (moments (optimizer st))"
    by (rule iteration_effect) blast
  from 2 have "count_list (calls st') OptimizerStep = count_list (calls st) OptimizerStep + 1"
    by simp
  with 1 2 3 show ?thesis by blast
qed

theorem training_step_witness:
  "\<exists>st'. iteration example_collab example_args 0 example_state = Inr st'
     \<and> take 5 (calls st') = [NetTrain, Forward True 0 100, ZeroGrad, Backward 3, OptimizerStep]
     \<and> params st' = 1 \<and> moments (optimizer st') = 1 \<and> grads st' = Some 1"
proof -
  obtain st' where a: "iteration example_collab example_args 0 example_state = Inr st'"
    using example_iteration by blast
  from training_step[OF a] obtain s c v lc ls r where
    "style_iter example_collab (style_pos example_state) = Inr s"
    "train_content_iter example_collab (train_pos example_state) = Inr c"
    "network example_collab True (params example_state) c s = Inr (lc, ls)"
    "calls st' = calls example_state @
             [NetTrain, Forward True c s, ZeroGrad,
              Backward (content_weight example_args * lc + style_weight example_args * ls),
              OptimizerStep, NetEval, Forward False v s]"
    "grads st' = Some (gradient example_collab (params example_state) c s
        (content_weight example_args) (style_weight example_args))"
    "(params st', moments (optimizer st')) =
             adam example_collab
               (map (\<lambda>g. g\<lparr>pg_lr := r\<rparr>)
                       (param_groups (optimizer example_state)))
               (params example_state)
               (Some (gradient example_collab (params example_state) c s
                  (content_weight example_args) (style_weight example_args)))
               (moments (optimizer example_state))"
    by blast
  then have "take 5 (calls st') = [NetTrain, Forward True 0 100, ZeroGrad, Backward 3, OptimizerStep]
     \<and> params st' = 1 \<and> moments (optimizer st') = 1 \<and> grads st' = Some 1"
    by (auto simp: example_collab_def example_state_def initial_state_def example_args_def)
  with a show ?thesis by blast
qed

text \<open>
  C5. The validation part of an iteration changes neither the decoder parameters nor the
  optimizer (its parameter groups and its moments) nor the gradients: the calls it makes
  are the switch to evaluation mode and one forward pass with gradient tracking off, on
  the batch pulled from the validation-content stream.
\<close>

theorem validation_leaves_training_state:
  assumes "val_part C a i style_images st = Inr (val_loss, st')"
  shows "params st' = params st
       \<and> optimizer st' = optimizer st
       \<and> grads st' = grads st
       \<and> (\<exists>v. val_content_iter C (val_pos st) = Inr v
              \<and> calls st' = calls st @ [NetEval, Forward False v style_images])"
  using assms by (rule val_part_Inr) simp

theorem validation_leaves_training_state_witness:
  "\<exists>st'. val_part example_collab example_args 0 100 (example_state\<lparr>params := 7\<rparr>) = Inr (3, st')
     \<and> params st' = 7 \<and> optimizer st' = optimizer example_state \<and> grads st' = None
     \<and> calls st' = [NetEval, Forward False 200 100]"
proof -
  obtain st' where a:
    "val_part example_collab example_args 0 100 (example_state\<lparr>params := 7\<rparr>) = Inr (3, st')"
    by (simp add: val_part_unfold example_collab_def example_args_def)
  from validation_leaves_training_state[OF a]
  have "params st' = 7 \<and> optimizer st' = optimizer example_state \<and> grads st' = None
     \<and> calls st' = [NetEval, Forward False 200 100]"
    by (auto simp: example_collab_def example_state_def initial_state_def)
  with a show ?thesis by blast
qed

subsection \<open>Flat image dataset\<close>

lemma list_index_IndexError:
  "list_index xs k = Inl IndexError \<longleftrightarrow> k < - int (length xs) \<or> int (length xs) \<le> k"
  by (simp add: list_index_def Let_def)

lemma list_index_in_range:
  "- int (length xs) \<le> k \<Longrightarrow> k < int (length xs) \<Longrightarrow>
     list_index xs k = Inr (xs ! nat (if k < 0 then k + int (length xs) else k))"
  by (simp add: list_index_def Let_def)

lemma getitem_in_range:
  assumes "- len d \<le> k" "k < len d"
  shows "getitem L fs d k =
     (case image_open_rgb L fs (paths d ! nat (if k < 0 then k + len d else k)) of
        Inl e \<Rightarrow> Inl e | Inr img \<Rightarrow> compose L (transform d) img)"
  using assms list_index_in_range[of "paths d" k]
  by (simp add: getitem_def len_def)

lemma getitem_out_of_range:
  assumes "k < - len d \<or> len d \<le> k"
  shows "getitem L fs d k = Inl IndexError"
proof -
  from assms have "list_index (paths d) k = Inl IndexError"
    by (simp add: list_index_IndexError len_def)
  then show ?thesis by (simp add: getitem_def)
qed





text \<open>
  C7, amended. Indexed access fails with \<^verbatim>\<open>IndexError\<close> when the index is outside
  \<open>[-length, length)\<close>, and the lookup of the path fails exactly then. For an index inside
  \<open>[-length, length)\<close> it opens and decodes the file at the captured path of that index,
  counted from the end when the index is negative, applies the transform and returns the
  result, or the error of the decoder or of the transform.
\<close>

theorem getitem_index:
  "(k < - len d \<or> len d \<le> k \<longrightarrow> getitem L fs d k = Inl IndexError)
   \<and> (list_index (paths d) k = Inl IndexError \<longleftrightarrow> k < - len d \<or> len d \<le> k)
   \<and> (- len d \<le> k \<and> k < len d \<longrightarrow>
        getitem L fs d k =
          (case image_open_rgb L fs (paths d ! nat (if k < 0 then k + len d else k)) of
             Inl e \<Rightarrow> Inl e | Inr img \<Rightarrow> compose L (transform d) img))"
  using getitem_out_of_range[of k d L fs] getitem_in_range[of d k L fs]
    list_index_IndexError[of "paths d" k]
  by (simp add: len_def)

theorem getitem_index_witness:
  "getitem example_image_lib example_fs
      \<lparr>root = ''imgs'', paths = [''imgs/b.png'', ''imgs/a.jpg''], transform = train_transform\<rparr> 2
     = Inl IndexError
   \<and> getitem example_image_lib example_fs
      \<lparr>root = ''imgs'', paths = [''imgs/b.png'', ''imgs/a.jpg''], transform = train_transform\<rparr> (- 3)
     = Inl IndexError
   \<and> getitem example_image_lib example_fs
      \<lparr>root = ''imgs'', paths = [''imgs/b.png'', ''imgs/a.jpg''], transform = train_transform\<rparr> 0
     = Inr ''Brt''
   \<and> getitem example_image_lib example_fs
      \<lparr>root = ''imgs'', paths = [''imgs/b.png'', ''imgs/a.jpg''], transform = train_transform\<rparr> (- 2)
     = Inr ''Brt''"
proof -
  let ?d = "\<lparr>root = ''imgs'', paths = [''imgs/b.png'', ''imgs/a.jpg''], transform = train_transform\<rparr>"
  have l: "len ?d = 2" by (simp add: len_def)
  note T = getitem_index[where d = ?d and L = example_image_lib and fs = example_fs]
  from T[where k = 2] l have 1: "getitem example_image_lib example_fs ?d 2 = Inl IndexError"
    by simp
  from T[where k = "- 3"] l have 2: "getitem example_image_lib example_fs ?d (- 3) = Inl IndexError"
    by simp
  from T[where k = 0] l have 3: "getitem example_image_lib example_fs ?d 0 = Inr ''Brt''"
    by (simp add: example_image_lib_def example_fs_def train_transform_def)
  from T[where k = "- 2"] l have 4: "getitem example_image_lib example_fs ?d (- 2) = Inr ''Brt''"
    by (simp add: example_image_lib_def example_fs_def train_transform_def)
  from 1 2 3 4 show ?thesis by simp
qed

text \<open>
  The claim as stated fails at the index \<open>-1\<close>, which is outside \<open>[0, length)\<close>: on a
  dataset of two paths it returns the image of the last path.
\<close>

theorem getitem_index_counterexample:
  "\<not> (0 \<le> (- 1 :: int))
   \<and> len \<lparr>root = ''imgs'', paths = [''imgs/b.png'', ''imgs/a.jpg''], transform = train_transform\<rparr> = 2
   \<and> getitem example_image_lib example_fs
      \<lparr>root = ''imgs'', paths = [''imgs/b.png'', ''imgs/a.jpg''], transform = train_transform\<rparr> (- 1)
     = Inr ''Art''"
  by (simp add: len_def getitem_def list_index_def example_image_lib_def example_fs_def
      train_transform_def)

subsection \<open>Seeding, sampling and transforms\<close>

lemma seed_everything_Inr:
  assumes "seed_everything L seed_arg p = Inr q"
  obtains g1 g2 g3 g4 where
    "random_seed L (case seed_arg of None \<Rightarrow> 42 | Some s \<Rightarrow> s) = Inr g1"
    "np_random_seed L (case seed_arg of None \<Rightarrow> 42 | Some s \<Rightarrow> s) = Inr g2"
    "torch_manual_seed L (case seed_arg of None \<Rightarrow> 42 | Some s \<Rightarrow> s) = Inr g3"
    "torch_cuda_manual_seed L (case seed_arg of None \<Rightarrow> 42 | Some s \<Rightarrow> s) = Inr g4"
    "q = p\<lparr>gens := \<lparr>py_random = g1, np_random = g2, torch_cpu = g3,
                      torch_cuda = replicate (length (torch_cuda (gens p))) g4\<rparr>,
            environ := (environ p)(''PYTHONHASHSEED'' \<mapsto>
                         str_int (case seed_arg of None \<Rightarrow> 42 | Some s \<Rightarrow> s)),
            print_precision := 10, cudnn_benchmark := False, cudnn_deterministic := True\<rparr>"
  using assms
  by (auto simp: seed_everything_def Let_def map_replicate_const split: sum.splits)

lemma seed_everything_gens:
  assumes "length (torch_cuda (gens p1)) = length (torch_cuda (gens p2))"
  shows "(case seed_everything L seed_arg p1 of Inl e \<Rightarrow> Inl e | Inr q \<Rightarrow> Inr (gens q))
       = (case seed_everything L seed_arg p2 of Inl e \<Rightarrow> Inl e | Inr q \<Rightarrow> Inr (gens q))"
  using assms
  by (auto simp: seed_everything_def Let_def map_replicate_const split: sum.splits)

lemma pipeline_indices_unfold:
  "pipeline_indices L permutation seed_arg n_train n_val n_style schedule p =
     (case (case seed_everything L seed_arg p of Inl e \<Rightarrow> Inl e | Inr q \<Rightarrow> Inr (gens q)) of
        Inl e \<Rightarrow> Inl e
      | Inr g \<Rightarrow>
      (case InfiniteSamplerWrapper n_train of Inl e \<Rightarrow> Inl e | Inr s_train \<Rightarrow>
       case InfiniteSamplerWrapper n_val of Inl e \<Rightarrow> Inl e | Inr s_val \<Rightarrow>
       case InfiniteSamplerWrapper n_style of Inl e \<Rightarrow> Inl e | Inr s_style \<Rightarrow>
       sampled_indices permutation schedule
         \<lparr>style_sampler = s_style, train_content_sampler = s_train,
          val_content_sampler = s_val, rng = g\<rparr>))"
  by (simp add: pipeline_indices_def split: sum.splits)

text \<open>
  C8. Two runs seeded with the same seed, on datasets of the same sizes, on machines with
  the same number of accelerator devices and with the same schedule of pulls, sample the
  same sequence of indices from the three samplers, whatever the states of the generators
  were before seeding; a run that fails, fails in both.
\<close>

theorem sampled_indices_deterministic:
  assumes "length (torch_cuda (gens p1)) = length (torch_cuda (gens p2))"
  shows "pipeline_indices L permutation (Some s) n_train n_val n_style schedule p1
       = pipeline_indices L permutation (Some s) n_train n_val n_style schedule p2"
  unfolding pipeline_indices_unfold
  by (simp only: seed_everything_gens[OF assms])

theorem sampled_indices_deterministic_witness:
  "length (torch_cuda (gens (example_process 0))) = length (torch_cuda (gens (example_process 5)))
   \<and> gens (example_process 0) \<noteq> gens (example_process 5)
   \<and> pipeline_indices example_rng_lib example_permutation (Some 7) 3 2 2
        [StyleStream, TrainContentStream, ValContentStream, StyleStream, StyleStream]
        (example_process 0)
      = Inr [(StyleStream, 1), (TrainContentStream, 0), (ValContentStream, 1),
             (StyleStream, 0), (StyleStream, 0)]
   \<and> pipeline_indices example_rng_lib example_permutation (Some 7) 3 2 2
        [StyleStream, TrainContentStream, ValContentStream, StyleStream, StyleStream]
        (example_process 5)
      = Inr [(StyleStream, 1), (TrainContentStream, 0), (ValContentStream, 1),
             (StyleStream, 0), (StyleStream, 0)]"
proof -
  have l: "length (torch_cuda (gens (example_process 0)))
         = length (torch_cuda (gens (example_process 5)))"
    by (simp add: example_process_def)
  have d: "gens (example_process 0) \<noteq> gens (example_process 5)"
    by (simp add: example_process_def)
  have u3: "[0..<3] = [0, 1, 2]" and u2: "[0..<2] = [0, 1]"
    by (simp_all add: upt_rec)
  have r: "pipeline_indices example_rng_lib example_permutation (Some 7) 3 2 2
        [StyleStream, TrainContentStream, ValContentStream, StyleStream, StyleStream]
        (example_process 0)
      = Inr [(StyleStream, 1), (TrainContentStream, 0), (ValContentStream, 1),
             (StyleStream, 0), (StyleStream, 0)]"
    by (simp add: pipeline_indices_def seed_everything_def example_rng_lib_def
        example_process_def InfiniteSamplerWrapper_def pull_index_def next_index_def
        example_permutation_def Let_def u3 u2)
  from sampled_indices_deterministic[OF l, of example_rng_lib example_permutation 7 3 2 2
      "[StyleStream, TrainContentStream, ValContentStream, StyleStream, StyleStream]"] r
  have r': "pipeline_indices example_rng_lib example_permutation (Some 7) 3 2 2
        [StyleStream, TrainContentStream, ValContentStream, StyleStream, StyleStream]
        (example_process 5)
      = Inr [(StyleStream, 1), (TrainContentStream, 0), (ValContentStream, 1),
             (StyleStream, 0), (StyleStream, 0)]"
    by simp
  from l d r r' show ?thesis by (intro conjI)
qed

text \<open>
  C9. The transforms of the train-content, the validation-content and the style stream
  are the same list of operations, a resize to 512 by 512 followed by the conversion to
  a tensor; applied to the same image they give the same result, and datasets that
  differ in the transform only return the same item at every index.
\<close>

theorem stream_transforms_equal:
  "train_content_tf = val_content_tf
   \<and> val_content_tf = style_tf
   \<and> style_tf = [Resize 512 512, ToTensor]
   \<and> compose L train_content_tf img = compose L val_content_tf img
   \<and> compose L val_content_tf img = compose L style_tf img
   \<and> compose L style_tf img =
       (case resize L 512 512 img of Inl e \<Rightarrow> Inl e | Inr resized \<Rightarrow> to_tensor L resized)
   \<and> getitem L fs (d\<lparr>transform := train_content_tf\<rparr>) k
       = getitem L fs (d\<lparr>transform := val_content_tf\<rparr>) k
   \<and> getitem L fs (d\<lparr>transform := val_content_tf\<rparr>) k
       = getitem L fs (d\<lparr>transform := style_tf\<rparr>) k"
proof -
  have e: "train_content_tf = [Resize 512 512, ToTensor]"
    "val_content_tf = [Resize 512 512, ToTensor]"
    "style_tf = [Resize 512 512, ToTensor]"
    by (simp_all add: train_content_tf_def val_content_tf_def style_tf_def
        train_transform_def val_transform_def)
  have c: "compose L [Resize 512 512, ToTensor] img =
       (case resize L 512 512 img of Inl e \<Rightarrow> Inl e | Inr resized \<Rightarrow> to_tensor L resized)"
    by (simp split: sum.splits)
  show ?thesis unfolding e using c by simp
qed

theorem stream_transforms_equal_witness:
  "compose example_image_lib train_content_tf ''A'' = Inr ''Art''
   \<and> compose example_image_lib val_content_tf ''A'' = Inr ''Art''
   \<and> compose example_image_lib style_tf ''A'' = Inr ''Art''"
proof -
  note T = stream_transforms_equal[where L = example_image_lib and img = "''A''"]
  have "(case resize example_image_lib 512 512 ''A'' of Inl e \<Rightarrow> Inl e
         | Inr resized \<Rightarrow> to_tensor example_image_lib resized) = Inr ''Art''"
    by (simp add: example_image_lib_def)
  with T show ?thesis by simp
qed

text \<open>
  C10. The script seeds with the default seed of \<^verbatim>\<open>seed_everything\<close>, which is 42:
  the seeding of a run is that of \<^verbatim>\<open>seed_everything(42)\<close> for every configuration,
  it does not depend on the parsed arguments, and the parser declares no option
  \<^verbatim>\<open>--seed\<close>. When the seeding succeeds, every generator is the one its library returns
  for the seed 42 and the variable \<^verbatim>\<open>PYTHONHASHSEED\<close> is \<^verbatim>\<open>42\<close>.
\<close>

theorem seed_is_42:
  "main_seeding L a p = seed_everything L (Some 42) p
   \<and> main_seeding L a p = main_seeding L a' p
   \<and> ''--seed'' \<notin> set (map flag parser)
   \<and> length parser = 15
   \<and> (main_seeding L a p = Inr q \<longrightarrow>
        random_seed L 42 = Inr (py_random (gens q))
      \<and> np_random_seed L 42 = Inr (np_random (gens q))
      \<and> torch_manual_seed L 42 = Inr (torch_cpu (gens q))
      \<and> (\<exists>g. torch_cuda_manual_seed L 42 = Inr g
             \<and> torch_cuda (gens q) = replicate (length (torch_cuda (gens p))) g)
      \<and> environ q ''PYTHONHASHSEED'' = Some ''42'')"
proof -
  have 1: "main_seeding L a p = seed_everything L (Some 42) p"
    by (simp add: main_seeding_def seed_everything_def)
  have 2: "main_seeding L a p = main_seeding L a' p"
    by (simp add: main_seeding_def)
  have 3: "''--seed'' \<notin> set (map flag parser)" "length parser = 15"
    by (simp_all add: parser_def add_argument_def)
  have s: "str_int 42 = ''42''"
    by (simp add: str_int_def str_nat.simps digit_char_def)
  have 4: "main_seeding L a p = Inr q \<longrightarrow>
        random_seed L 42 = Inr (py_random (gens q))
      \<and> np_random_seed L 42 = Inr (np_random (gens q))
      \<and> torch_manual_seed L 42 = Inr (torch_cpu (gens q))
      \<and> (\<exists>g. torch_cuda_manual_seed L 42 = Inr g
             \<and> torch_cuda (gens q) = replicate (length (torch_cuda (gens p))) g)
      \<and> environ q ''PYTHONHASHSEED'' = Some ''42''"
  proof
    assume "main_seeding L a p = Inr q"
    then have "seed_everything L None p = Inr q" by (simp add: main_seeding_def)
    then show "random_seed L 42 = Inr (py_random (gens q))
      \<and> np_random_seed L 42 = Inr (np_random (gens q))
      \<and> torch_manual_seed L 42 = Inr (torch_cpu (gens q))
      \<and> (\<exists>g. torch_cuda_manual_seed L 42 = Inr g
             \<and> torch_cuda (gens q) = replicate (length (torch_cuda (gens p))) g)
      \<and> environ q ''PYTHONHASHSEED'' = Some ''42''"
      by (rule seed_everything_Inr) (simp add: s)
  qed
  from 1 2 3 4 show ?thesis by (intro conjI)
qed

theorem seed_is_42_witness:
  "\<exists>q. main_seeding example_rng_lib example_args (example_process 5) = Inr q
     \<and> gens q = \<lparr>py_random = 42, np_random = 43, torch_cpu = 44, torch_cuda = [45]\<rparr>
     \<and> environ q ''PYTHONHASHSEED'' = Some ''42''"
proof -
  obtain q where q: "main_seeding example_rng_lib example_args (example_process 5) = Inr q"
    by (simp add: main_seeding_def seed_everything_def example_rng_lib_def Let_def)
  from seed_is_42[where L = example_rng_lib and a = example_args and p = "example_process 5"
      and q = q] q
  have "py_random (gens q) = 42 \<and> np_random (gens q) = 43 \<and> torch_cpu (gens q) = 44
      \<and> torch_cuda (gens q) = [45] \<and> environ q ''PYTHONHASHSEED'' = Some ''42''"
    by (auto simp: example_rng_lib_def example_process_def)
  then have "gens q = \<lparr>py_random = 42, np_random = 43, torch_cpu = 44, torch_cuda = [45]\<rparr>
     \<and> environ q ''PYTHONHASHSEED'' = Some ''42''"
    by (cases "gens q") simp
  with q show ?thesis by blast
qed

end
